theory Spec2Isabelle
  imports Complex_Main
begin

section \<open>Interactive execution engine of the collaborative editor\<close>

text \<open>
  The repository holds two variants of the same Flask application: \<^verbatim>\<open>app.py\<close> (streaming
  supervisor, configurable timeout, optional Docker backend) and \<^verbatim>\<open>aappp.py\<close> (the
  earlier variant: substring classifier, fixed 30 second timeout). Both are embedded here;
  definitions taken from \<^verbatim>\<open>aappp.py\<close> carry the suffix \<open>_aappp\<close>.

  Python strings are sequences of code points. A \<^typ>\<open>char\<close> stands for a code point
  below 256, which covers every character the regular expressions of the source name.
\<close>

subsection \<open>Requests, responses and events\<close>

type_synonym pid = string

datatype jval = JStr string | JBool bool | JInt int

type_synonym response = "(string \<times> jval) list"

text \<open>
  The JSON body of a request, a JSON object whose \<^verbatim>\<open>code\<close>, \<^verbatim>\<open>session_id\<close>, \<^verbatim>\<open>user_input\<close> and
  \<^verbatim>\<open>process_id\<close> are strings, as the handlers read it with \<^verbatim>\<open>data.get\<close>. A field of type
  option is \<open>None\<close> when the key is absent; \<^verbatim>\<open>code\<close> and \<^verbatim>\<open>user_input\<close> default to the
  empty string, \<^verbatim>\<open>use_docker\<close> to false and \<^verbatim>\<open>docker_packages\<close> to the empty list.

  The value of \<^verbatim>\<open>timeout_seconds\<close> may be any JSON value, and \<^verbatim>\<open>app.py\<close> hands it to \<^verbatim>\<open>int\<close>.
  The field records what \<^verbatim>\<open>int\<close> makes of the value submitted: \<open>Inr n\<close> when it returns \<open>n\<close>
  (for \<^verbatim>\<open>200\<close>, \<^verbatim>\<open>"200"\<close>, \<^verbatim>\<open>200.7\<close> it returns 200), \<open>Inl\<close> with the class of the exception
  when it raises (\<^verbatim>\<open>TypeError\<close> for \<^verbatim>\<open>null\<close> or a list, \<^verbatim>\<open>ValueError\<close> for \<^verbatim>\<open>"abc"\<close>,
  \<^verbatim>\<open>OverflowError\<close> for an infinite number).
\<close>

datatype conversion_error = TypeError | ValueError | OverflowError

record request =
  code :: string
  session_id :: "string option"
  user_input :: string
  process_id :: "string option"
  timeout_seconds :: "(conversion_error + int) option"
  use_docker :: bool
  docker_packages :: "string list"

text \<open>
  The arguments handed to the thread that runs \<^verbatim>\<open>run_code_with_input\<close>: four in
  \<^verbatim>\<open>aappp.py\<close>, seven in \<^verbatim>\<open>app.py\<close>.
\<close>

record thread_args_aappp =
  arg_code :: string
  arg_process_id :: pid
  arg_session_id :: "string option"
  arg_code_needs_input :: bool

record thread_args = thread_args_aappp +
  arg_timeout_seconds :: int
  arg_use_docker :: bool
  arg_docker_packages :: "string list"

datatype pipe = PIPE | NoPipe

text \<open>The keyword arguments of \<^verbatim>\<open>subprocess.Popen\<close>; \<open>NoPipe\<close> is Python's \<^verbatim>\<open>None\<close>.\<close>

record popen =
  cmd :: "string list"
  stdin :: pipe
  stdout :: pipe
  stderr :: pipe
  cwd :: "string option"

text \<open>
  The texts of the \<^verbatim>\<open>code_output\<close> events. The source writes them as literals that begin
  with an emoji; the constructors stand for these literals:
  \<^item> \<open>DatasetsCopied\<close>: "Session datasets were copied into the execution workspace ...";
  \<^item> \<open>DockerMissing\<close>: "Docker not found on server, falling back to local execution.";
  \<^item> \<open>Started\<close>: "Code execution started...";
  \<^item> \<open>TimedOutAfter n\<close>: "Error: Code execution timed out (n seconds)";
  \<^item> \<open>ExecutionError e\<close>: "Execution error: e" (\<^verbatim>\<open>app.py\<close>), "Error: e" (\<^verbatim>\<open>aappp.py\<close>);
  \<^item> \<open>Text s\<close>: text read from the child's standard output or standard error.
\<close>

datatype message =
    DatasetsCopied
  | DockerMissing
  | Started
  | TimedOutAfter int
  | ExecutionError string
  | Text string

text \<open>
  One \<^verbatim>\<open>socketio.emit\<close> call: \<open>code_output process_id output type\<close>,
  \<open>input_received process_id\<close>, \<open>code_complete process_id status\<close>.
\<close>

datatype event =
    code_output pid message string
  | input_received pid
  | code_complete pid string

subsection \<open>The shared state\<close>

text \<open>
  The three module-level dictionaries, the emissions so far (each with its room, the
  session id) and the part of the file system the engine touches: \<open>dirs\<close> maps an existing
  directory to the names of its entries, and \<open>readonly\<close> tells whether the operating system
  refuses removals.
\<close>

record state =
  running_processes :: "pid \<rightharpoonup> popen"
  input_queues :: "pid \<rightharpoonup> string list"
  process_needs_input :: "pid \<rightharpoonup> bool"
  emitted :: "(string option \<times> event) list"
  dirs :: "string \<rightharpoonup> string set"
  readonly :: bool

definition emit :: "event \<Rightarrow> string option \<Rightarrow> state \<Rightarrow> state" where
  "emit e room s = s\<lparr>emitted := emitted s @ [(room, e)]\<rparr>"

subsection \<open>The interactive-input classifier\<close>

definition dq :: char where
  "dq = CHR 0x22"

definition sq :: char where
  "sq = CHR 0x27"

definition newline :: char where
  "newline = CHR 0x0A"

text \<open>Python's \<^verbatim>\<open>\w\<close> and \<^verbatim>\<open>\s\<close> on code points below 256.\<close>

definition is_word :: "char \<Rightarrow> bool" where
  "is_word c =
     (let n = (of_char c :: nat) in
        (48 \<le> n \<and> n \<le> 57) \<or> (65 \<le> n \<and> n \<le> 90) \<or> n = 95 \<or> (97 \<le> n \<and> n \<le> 122) \<or>
        n = 170 \<or> n = 178 \<or> n = 179 \<or> n = 181 \<or> n = 185 \<or> n = 186 \<or>
        (188 \<le> n \<and> n \<le> 190) \<or> (192 \<le> n \<and> n \<le> 214) \<or> (216 \<le> n \<and> n \<le> 246) \<or>
        248 \<le> n)"

definition is_space :: "char \<Rightarrow> bool" where
  "is_space c =
     (let n = (of_char c :: nat) in
        (9 \<le> n \<and> n \<le> 13) \<or> (28 \<le> n \<and> n \<le> 32) \<or> n = 133 \<or> n = 160)"

fun starts_with :: "string \<Rightarrow> string \<Rightarrow> bool" where
  "starts_with [] s = True"
| "starts_with (d # ds) [] = False"
| "starts_with (d # ds) (c # cs) = (d = c \<and> starts_with ds cs)"

text \<open>The index of the first occurrence of \<open>d\<close> in \<open>s\<close>.\<close>

fun find_sub :: "string \<Rightarrow> string \<Rightarrow> nat option" where
  "find_sub d [] = (if d = [] then Some 0 else None)"
| "find_sub d (c # cs) =
     (if starts_with d (c # cs) then Some 0 else map_option Suc (find_sub d cs))"

text \<open>
  \<^verbatim>\<open>re.sub(pattern, '', s)\<close> for a pattern that never matches the empty string: \<open>m\<close>
  gives the length of the match of the pattern that starts at the head of its argument,
  if there is one. The scan goes from left to right, deletes a match and goes on behind
  it; \<open>k\<close> counts the characters of the current match still to delete.
\<close>

fun re_sub_from :: "(string \<Rightarrow> nat option) \<Rightarrow> nat \<Rightarrow> string \<Rightarrow> string" where
  "re_sub_from m k [] = []"
| "re_sub_from m (Suc k) (c # cs) = re_sub_from m k cs"
| "re_sub_from m 0 (c # cs) =
     (case m (c # cs) of
        Some n \<Rightarrow> re_sub_from m (n - 1) cs
      | None \<Rightarrow> c # re_sub_from m 0 cs)"

definition re_sub :: "(string \<Rightarrow> nat option) \<Rightarrow> string \<Rightarrow> string" where
  "re_sub m s = re_sub_from m 0 s"

text \<open>
  \<^verbatim>\<open>(""".*?"""|'''.*?''')\<close> with \<^verbatim>\<open>re.S\<close>: three quotes, the shortest text up to the next
  three quotes of the same kind, newlines included.
\<close>

definition match_delimited :: "string \<Rightarrow> string \<Rightarrow> nat option" where
  "match_delimited d s =
     (if starts_with d s
      then map_option (\<lambda>i. length d + i + length d) (find_sub d (drop (length d) s))
      else None)"

definition match_triple :: "string \<Rightarrow> nat option" where
  "match_triple s =
     (case match_delimited [dq, dq, dq] s of
        Some n \<Rightarrow> Some n
      | None \<Rightarrow> match_delimited [sq, sq, sq] s)"

text \<open>\<^verbatim>\<open>(".*?"|'.*?')\<close> with \<^verbatim>\<open>re.S\<close>.\<close>

definition match_quoted :: "string \<Rightarrow> nat option" where
  "match_quoted s =
     (case match_delimited [dq] s of
        Some n \<Rightarrow> Some n
      | None \<Rightarrow> match_delimited [sq] s)"

text \<open>\<^verbatim>\<open>#.*\<close> without \<^verbatim>\<open>re.S\<close>: the dot matches every character but the newline.\<close>

definition match_comment :: "string \<Rightarrow> nat option" where
  "match_comment s =
     (case s of
        [] \<Rightarrow> None
      | c # cs \<Rightarrow>
          if c = CHR ''#'' then Some (Suc (length (takeWhile (\<lambda>x. x \<noteq> newline) cs)))
          else None)"

definition strip_strings_and_comments :: "string \<Rightarrow> string" where
  "strip_strings_and_comments s =
     re_sub match_comment (re_sub match_quoted (re_sub match_triple s))"

text \<open>
  \<^verbatim>\<open>re.search\<close> for a pattern that begins with \<^verbatim>\<open>\b\<close> and a word character: \<open>prevw\<close>
  tells whether the character before the current position is a word character.
\<close>

fun re_search_b :: "(string \<Rightarrow> bool) \<Rightarrow> bool \<Rightarrow> string \<Rightarrow> bool" where
  "re_search_b m prevw [] = False"
| "re_search_b m prevw (c # cs) = ((\<not> prevw \<and> m (c # cs)) \<or> re_search_b m (is_word c) cs)"

text \<open>\<^verbatim>\<open>input\s*\(\<close> at the head of \<open>s\<close>.\<close>

definition match_input :: "string \<Rightarrow> bool" where
  "match_input s =
     (starts_with ''input'' s \<and>
      (case dropWhile is_space (drop 5 s) of [] \<Rightarrow> False | c # cs \<Rightarrow> c = CHR ''(''))"

text \<open>\<^verbatim>\<open>sys\.stdin\b\<close> at the head of \<open>s\<close>.\<close>

definition match_sys_stdin :: "string \<Rightarrow> bool" where
  "match_sys_stdin s =
     (starts_with ''sys.stdin'' s \<and>
      (case drop 9 s of [] \<Rightarrow> True | c # cs \<Rightarrow> \<not> is_word c))"

text \<open>\<^verbatim>\<open>app.py\<close>, \<^verbatim>\<open>run_code\<close>: the value of \<^verbatim>\<open>code_needs_input\<close>.\<close>

definition code_needs_input :: "string \<Rightarrow> bool" where
  "code_needs_input src =
     (let cleaned = strip_strings_and_comments src
      in re_search_b match_input False cleaned \<or> re_search_b match_sys_stdin False cleaned)"

text \<open>\<^verbatim>\<open>aappp.py\<close>, \<^verbatim>\<open>run_code\<close>: \<^verbatim>\<open>"input(" in code\<close>.\<close>

definition code_needs_input_aappp :: "string \<Rightarrow> bool" where
  "code_needs_input_aappp src = (find_sub ''input('' src \<noteq> None)"

subsection \<open>Request handlers\<close>

text \<open>The single steps that write the three dictionaries.\<close>

definition register_queue :: "pid \<Rightarrow> state \<Rightarrow> state" where
  "register_queue p s = s\<lparr>input_queues := (input_queues s)(p \<mapsto> [])\<rparr>"

definition register_flag :: "pid \<Rightarrow> bool \<Rightarrow> state \<Rightarrow> state" where
  "register_flag p b s = s\<lparr>process_needs_input := (process_needs_input s)(p \<mapsto> b)\<rparr>"

definition register_process :: "pid \<Rightarrow> popen \<Rightarrow> state \<Rightarrow> state" where
  "register_process p h s = s\<lparr>running_processes := (running_processes s)(p \<mapsto> h)\<rparr>"

definition unregister_process :: "pid \<Rightarrow> state \<Rightarrow> state" where
  "unregister_process p s = s\<lparr>running_processes := (running_processes s)(p := None)\<rparr>"

definition unregister_queue :: "pid \<Rightarrow> state \<Rightarrow> state" where
  "unregister_queue p s = s\<lparr>input_queues := (input_queues s)(p := None)\<rparr>"

definition unregister_flag :: "pid \<Rightarrow> state \<Rightarrow> state" where
  "unregister_flag p s = s\<lparr>process_needs_input := (process_needs_input s)(p := None)\<rparr>"

text \<open>\<^verbatim>\<open>input_queues[process_id].put(user_input + "\n")\<close> on a queue that exists.\<close>

definition put_line :: "pid \<Rightarrow> string list \<Rightarrow> string \<Rightarrow> state \<Rightarrow> state" where
  "put_line p q line s = s\<lparr>input_queues := (input_queues s)(p \<mapsto> q @ [line @ [newline]])\<rparr>"

text \<open>
  The test \<^verbatim>\<open>process_id and user_input\<close>: the id the request feeds, when both are
  truthy (present and not empty).
\<close>

definition feed_target :: "request \<Rightarrow> pid option" where
  "feed_target data =
     (case process_id data of
        None \<Rightarrow> None
      | Some p \<Rightarrow> if p \<noteq> [] \<and> user_input data \<noteq> [] then Some p else None)"

definition input_sent :: response where
  "input_sent = [(''status'', JStr ''input_sent''), (''message'', JStr ''Input sent to process'')]"

definition input_success :: response where
  "input_success = [(''status'', JStr ''success''), (''message'', JStr ''Input sent to process'')]"

definition not_found :: response where
  "not_found = [(''status'', JStr ''error''), (''message'', JStr ''Process not found or completed'')]"

definition input_required :: response where
  "input_required =
     [(''status'', JStr ''error''), (''message'', JStr ''Process ID and input are required'')]"

definition start_error :: "string \<Rightarrow> response" where
  "start_error e = [(''status'', JStr ''error''), (''message'', JStr (''Error starting execution: '' @ e))]"

text \<open>\<^verbatim>\<open>int(data.get("timeout_seconds", 120))\<close>, line 72.\<close>

definition int_timeout_seconds :: "request \<Rightarrow> conversion_error + int" where
  "int_timeout_seconds data = (case timeout_seconds data of None \<Rightarrow> Inr 120 | Some c \<Rightarrow> c)"

text \<open>\<^verbatim>\<open>max(1, min(timeout_seconds, 300))\<close>, line 73.\<close>

definition effective_timeout :: "int \<Rightarrow> int" where
  "effective_timeout t = max 1 (min t 300)"

text \<open>
  \<^verbatim>\<open>app.py\<close>, \<^verbatim>\<open>run_code\<close>. \<open>new_id\<close> is the value of \<^verbatim>\<open>str(uuid.uuid4())\<close> and
  \<open>thread_error\<close> the text of the exception that creating or starting the thread raises,
  if it does. The conversion of line 72 stands before the feed branch and outside the
  \<^verbatim>\<open>try\<close> block: when it raises, the exception leaves the handler (the client gets the
  status 500 from Flask) and nothing has been written; this is the result \<open>Inl\<close>. Otherwise
  the result is \<open>Inr\<close> with the JSON response, the arguments of the thread started (if one
  is) and the new state.
\<close>

definition run_code ::
  "request \<Rightarrow> pid \<Rightarrow> string option \<Rightarrow> state \<Rightarrow>
     conversion_error + response \<times> thread_args option \<times> state" where
  "run_code data new_id thread_error s =
     (case int_timeout_seconds data of
        Inl raised \<Rightarrow> Inl raised
      | Inr v \<Rightarrow>
          Inr
            (let t = effective_timeout v in
             case feed_target data of
               Some p \<Rightarrow>
                 (case input_queues s p of
                    Some q \<Rightarrow> (input_sent, None, put_line p q (user_input data) s)
                  | None \<Rightarrow> (not_found, None, s))
             | None \<Rightarrow>
                 (let needs = code_needs_input (code data);
                      s1 = register_queue new_id s;
                      s2 = register_flag new_id needs s1
                  in case thread_error of
                       Some e \<Rightarrow> (start_error e, None, s2)
                     | None \<Rightarrow>
                         ([(''status'', JStr ''started''),
                           (''process_id'', JStr new_id),
                           (''needs_input'', JBool needs),
                           (''message'', JStr ''Code execution started successfully''),
                           (''timeout_seconds'', JInt t),
                           (''use_docker'', JBool (use_docker data))],
                          Some \<lparr>arg_code = code data, arg_process_id = new_id,
                                arg_session_id = session_id data, arg_code_needs_input = needs,
                                arg_timeout_seconds = t, arg_use_docker = use_docker data,
                                arg_docker_packages = docker_packages data\<rparr>,
                          s2))))"

text \<open>
  What a call of \<^verbatim>\<open>run_code\<close> leaves behind: the response, if the handler returns one, the
  thread it has started, if any, and the state, which is the state before when the handler
  was left by an exception.
\<close>

definition answer ::
  "conversion_error + response \<times> thread_args option \<times> state \<Rightarrow> response option" where
  "answer r = (case r of Inl raised \<Rightarrow> None | Inr x \<Rightarrow> Some (fst x))"

definition started ::
  "conversion_error + response \<times> thread_args option \<times> state \<Rightarrow> thread_args option" where
  "started r = (case r of Inl raised \<Rightarrow> None | Inr x \<Rightarrow> fst (snd x))"

definition state_after ::
  "state \<Rightarrow> conversion_error + response \<times> thread_args option \<times> state \<Rightarrow> state" where
  "state_after s r = (case r of Inl raised \<Rightarrow> s | Inr x \<Rightarrow> snd (snd x))"

text \<open>
  \<^verbatim>\<open>aappp.py\<close>, \<^verbatim>\<open>run_code\<close>: no timeout and no backend is read from the request, and the
  supervisor of this variant takes neither.
\<close>

definition run_code_aappp ::
  "request \<Rightarrow> pid \<Rightarrow> string option \<Rightarrow> state \<Rightarrow>
     response \<times> thread_args_aappp option \<times> state" where
  "run_code_aappp data new_id thread_error s =
     (case feed_target data of
        Some p \<Rightarrow>
          (case input_queues s p of
             Some q \<Rightarrow> (input_sent, None, put_line p q (user_input data) s)
           | None \<Rightarrow> (not_found, None, s))
      | None \<Rightarrow>
          (let needs = code_needs_input_aappp (code data);
               s1 = register_queue new_id s;
               s2 = register_flag new_id needs s1
           in case thread_error of
                Some e \<Rightarrow> (start_error e, None, s2)
              | None \<Rightarrow>
                  ([(''status'', JStr ''started''),
                    (''process_id'', JStr new_id),
                    (''needs_input'', JBool needs),
                    (''message'', JStr ''Code execution started successfully'')],
                   Some \<lparr>arg_code = code data, arg_process_id = new_id,
                         arg_session_id = session_id data, arg_code_needs_input = needs\<rparr>,
                   s2)))"

text \<open>\<^verbatim>\<open>provide_input\<close>, the same text in both variants.\<close>

definition provide_input :: "request \<Rightarrow> state \<Rightarrow> response \<times> state" where
  "provide_input data s =
     (case feed_target data of
        None \<Rightarrow> (input_required, s)
      | Some p \<Rightarrow>
          (case input_queues s p of
             Some q \<Rightarrow> (input_success, put_line p q (user_input data) s)
           | None \<Rightarrow> (not_found, s)))"

subsection \<open>What the supervisor observes\<close>

text \<open>
  The supervisor of one execution runs in a thread of its own. Everything it reads from
  outside (the operating system, the clock, the child process and the request handlers
  that feed its mailbox meanwhile) is given as an environment. The two stream-pump
  threads run beside it and publish the child's output on their own; their emissions are
  not part of the supervisor's own sequence of emissions, which is what \<open>emitted\<close> records
  here.
\<close>

datatype staging =
    NoDatasets
  | Staged
  | StagingFailed "string set"

datatype write_result = Written | BrokenPipe | WriteError string

text \<open>
  One turn of the monitoring loop: what \<^verbatim>\<open>process.poll()\<close> returns, the value of
  \<^verbatim>\<open>time.time() - start_time\<close> in seconds, the lines that request handlers have put into
  the mailbox since the last turn (each already ends with the newline), and what writing
  to the child's standard input does if the turn comes to it.
\<close>

record tick =
  poll :: "int option"
  elapsed :: rat
  arrivals :: "string list"
  write_result :: write_result

text \<open>
  \<^item> \<open>mkdtemp\<close>: the directory \<^verbatim>\<open>tempfile.mkdtemp\<close> creates, or the text of its exception;
  \<^item> \<open>write_source\<close>: the text of the exception that writing the source file raises, if any;
  \<^item> \<open>datasets\<close>: what \<^verbatim>\<open>_copy_session_datasets_to_temp\<close> does. The module defines this
    function twice, and the second definition (lines 682 to 700) is the one bound when a
    request is served: it does nothing (the session has no upload directory), or creates
    the copy \<^verbatim>\<open>data\<close> in the workspace, or raises an exception after the given entries
    were created;
  \<^item> \<open>docker_found\<close>: \<^verbatim>\<open>shutil.which("docker") is not None\<close>;
  \<^item> \<open>sys_executable\<close>: the path of the Python interpreter;
  \<^item> \<open>popen_error\<close>: the text of the exception \<^verbatim>\<open>subprocess.Popen\<close> raises, if any;
  \<^item> \<open>ticks\<close>: the turns of the monitoring loop;
  \<^item> \<open>final_poll\<close>: what \<^verbatim>\<open>process.poll()\<close> returns after the loop, when the loop has not
    seen the process exit.
\<close>

record env =
  mkdtemp :: "string + string"
  write_source :: "string option"
  datasets :: staging
  docker_found :: bool
  sys_executable :: string
  popen_error :: "string option"
  ticks :: "tick list"
  final_poll :: "int option"

text \<open>
  The local variables of \<^verbatim>\<open>run_code_with_input\<close> that its \<^verbatim>\<open>finally\<close> block reads, and the
  return code the process object holds (\<open>None\<close> while the process is not known to have
  ended). A file name is the pair of its directory and its name there.
\<close>

record frame =
  process :: "popen option"
  returncode :: "int option"
  temp_filename :: "(string \<times> string) option"
  temp_dir :: "string option"

definition no_frame :: frame where
  "no_frame = \<lparr>process = None, returncode = None, temp_filename = None, temp_dir = None\<rparr>"

subsection \<open>Files\<close>

definition path_exists :: "string \<times> string \<Rightarrow> state \<Rightarrow> bool" where
  "path_exists f s = (case dirs s (fst f) of None \<Rightarrow> False | Some names \<Rightarrow> snd f \<in> names)"

definition create_entries :: "string \<Rightarrow> string set \<Rightarrow> state \<Rightarrow> state" where
  "create_entries d new s =
     (case dirs s d of
        None \<Rightarrow> s
      | Some names \<Rightarrow> s\<lparr>dirs := (dirs s)(d \<mapsto> names \<union> new)\<rparr>)"

text \<open>\<^verbatim>\<open>os.unlink\<close> and \<^verbatim>\<open>os.rmdir\<close>; \<open>None\<close> is an \<^verbatim>\<open>OSError\<close>.\<close>

definition unlink :: "string \<times> string \<Rightarrow> state \<Rightarrow> state option" where
  "unlink f s =
     (case dirs s (fst f) of
        None \<Rightarrow> None
      | Some names \<Rightarrow>
          if readonly s \<or> snd f \<notin> names then None
          else Some (s\<lparr>dirs := (dirs s)(fst f \<mapsto> names - {snd f})\<rparr>))"

definition rmdir :: "string \<Rightarrow> state \<Rightarrow> state option" where
  "rmdir d s =
     (case dirs s d of
        None \<Rightarrow> None
      | Some names \<Rightarrow>
          if readonly s \<or> names \<noteq> {} then None
          else Some (s\<lparr>dirs := (dirs s)(d := None)\<rparr>))"

subsection \<open>The supervisor of \<^verbatim>\<open>app.py\<close>\<close>

fun join_with :: "string \<Rightarrow> string list \<Rightarrow> string" where
  "join_with sep [] = []"
| "join_with sep [x] = x"
| "join_with sep (x # y # ys) = x @ sep @ join_with sep (y # ys)"

text \<open>The command and the pipes of the child, lines 207 to 246 of \<^verbatim>\<open>app.py\<close>.\<close>

definition popen_args :: "string \<Rightarrow> string \<Rightarrow> bool \<Rightarrow> bool \<Rightarrow> string list \<Rightarrow> string \<Rightarrow> popen" where
  "popen_args executable dir needs docker packages file =
     (if docker then
        (let pip_cmd =
               (if packages \<noteq> []
                then ''pip install --no-cache-dir '' @ join_with '' '' packages @
                     '' >/dev/null 2>&1 && ''
                else []);
             container_cmd = pip_cmd @ ''python /workspace/program.py''
         in \<lparr>cmd = [''docker'', ''run'', ''--rm'', ''-i'', ''-v'', dir @ '':/workspace'',
                    ''-w'', ''/workspace'', ''python:3.11-slim'', ''bash'', ''-lc'', container_cmd],
             stdin = (if needs then PIPE else NoPipe),
             stdout = PIPE, stderr = PIPE, cwd = Some dir\<rparr>)
      else
        \<lparr>cmd = [executable, file],
         stdin = (if needs then PIPE else NoPipe),
         stdout = PIPE, stderr = PIPE, cwd = Some dir\<rparr>)"

definition stage_datasets :: "thread_args \<Rightarrow> env \<Rightarrow> string \<Rightarrow> state \<Rightarrow> state" where
  "stage_datasets a e d s =
     (case datasets e of
        NoDatasets \<Rightarrow> s
      | StagingFailed made \<Rightarrow> create_entries d made s
      | Staged \<Rightarrow>
          emit (code_output (arg_process_id a) DatasetsCopied ''system'') (arg_session_id a)
            (create_entries d {''data''} s))"

text \<open>
  The body of the \<^verbatim>\<open>try\<close> block up to the start of the stream pumps: \<open>Inl\<close> with the
  text of the exception when one is raised, \<open>Inr\<close> with the process started otherwise.
\<close>

definition launch ::
  "thread_args \<Rightarrow> env \<Rightarrow> state \<Rightarrow> (string \<times> frame \<times> state) + (popen \<times> frame \<times> state)" where
  "launch a e s =
     (case mkdtemp e of
        Inl err \<Rightarrow> Inl (err, no_frame, s)
      | Inr d \<Rightarrow>
          (let s1 = s\<lparr>dirs := (dirs s)(d \<mapsto> {})\<rparr>;
               fr = no_frame\<lparr>temp_dir := Some d, temp_filename := Some (d, ''program.py'')\<rparr>
           in case write_source e of
                Some err \<Rightarrow> Inl (err, fr, s1)
              | None \<Rightarrow>
                  (let s2 = create_entries d {''program.py''} s1;
                       s3 = stage_datasets a e d s2;
                       missing = (arg_use_docker a \<and> \<not> docker_found e);
                       s4 = (if missing
                             then emit (code_output (arg_process_id a) DockerMissing ''system'')
                                    (arg_session_id a) s3
                             else s3);
                       docker = (arg_use_docker a \<and> \<not> missing);
                       h = popen_args (sys_executable e) d (arg_code_needs_input a) docker
                             (arg_docker_packages a) (d @ ''/program.py'')
                   in case popen_error e of
                        Some err \<Rightarrow> Inl (err, fr, s4)
                      | None \<Rightarrow>
                          Inr (h, fr\<lparr>process := Some h\<rparr>,
                           emit (code_output (arg_process_id a) Started ''system'')
                             (arg_session_id a) (register_process (arg_process_id a) h s4)))))"

datatype loop_end = Exited int | TimedOut | QueueRemoved | Raised string

text \<open>
  The monitoring loop, lines 285 to 321. It ends when the process is seen to have exited,
  when the time is over (the process is killed and the timeout message emitted), when the
  mailbox is gone (\<^verbatim>\<open>KeyError\<close>), or by an exception that the loop does not catch. The
  result is \<open>None\<close> when the turns given are used up before the loop ends.
\<close>

fun monitor ::
  "pid \<Rightarrow> string option \<Rightarrow> int \<Rightarrow> popen \<Rightarrow> tick list \<Rightarrow> state \<Rightarrow> (loop_end \<times> state) option" where
  "monitor p room timeout h [] s = None"
| "monitor p room timeout h (t # ts) s =
     (case poll t of
        Some rc \<Rightarrow> Some (Exited rc, s)
      | None \<Rightarrow>
          if elapsed t > of_int timeout
          then Some (TimedOut, emit (code_output p (TimedOutAfter timeout) ''error'') room s)
          else
            (case input_queues s p of
               None \<Rightarrow> Some (QueueRemoved, s)
             | Some q \<Rightarrow>
                 (case q @ arrivals t of
                    [] \<Rightarrow> monitor p room timeout h ts s
                  | line # rest \<Rightarrow>
                      (let s1 = s\<lparr>input_queues := (input_queues s)(p \<mapsto> rest)\<rparr>
                       in if stdin h = PIPE
                          then (case write_result t of
                                  Written \<Rightarrow>
                                    monitor p room timeout h ts (emit (input_received p) room s1)
                                | BrokenPipe \<Rightarrow> monitor p room timeout h ts s1
                                | WriteError err \<Rightarrow> Some (Raised err, s1))
                          else monitor p room timeout h ts s1))))"

text \<open>
  The status of the completion event, line 333:
  \<^verbatim>\<open>"completed" if process.poll() is not None and process.returncode == 0 else "finished"\<close>.
\<close>

definition completion_status :: "int option \<Rightarrow> string" where
  "completion_status rc = (if rc \<noteq> None \<and> rc = Some 0 then ''completed'' else ''finished'')"

definition observed_returncode :: "loop_end \<Rightarrow> env \<Rightarrow> int option" where
  "observed_returncode ending e = (case ending of Exited rc \<Rightarrow> Some rc | _ \<Rightarrow> final_poll e)"

text \<open>The \<^verbatim>\<open>try\<close> block of the \<^verbatim>\<open>finally\<close> clause that removes the source file and the directory.\<close>

definition remove_workspace :: "frame \<Rightarrow> state \<Rightarrow> state" where
  "remove_workspace fr s =
     (case (case temp_filename fr of
              Some f \<Rightarrow> if path_exists f s then unlink f s else Some s
            | None \<Rightarrow> Some s) of
        None \<Rightarrow> s
      | Some s1 \<Rightarrow>
          (case temp_dir fr of
             Some d \<Rightarrow>
               if dirs s1 d \<noteq> None then (case rmdir d s1 of None \<Rightarrow> s1 | Some s2 \<Rightarrow> s2) else s1
           | None \<Rightarrow> s1))"

text \<open>\<^verbatim>\<open>if process and process.poll() is None: process.kill()\<close>; a killed process ends with -9.\<close>

definition kill_if_alive :: "frame \<Rightarrow> frame" where
  "kill_if_alive fr =
     (if process fr \<noteq> None \<and> returncode fr = None then fr\<lparr>returncode := Some (- 9)\<rparr> else fr)"

text \<open>The \<^verbatim>\<open>finally\<close> block, lines 342 to 369.\<close>

definition cleanup :: "pid \<Rightarrow> frame \<times> state \<Rightarrow> frame \<times> state" where
  "cleanup p fs =
     (let fr = fst fs; s = snd fs;
          s1 = (if p \<in> dom (running_processes s) then unregister_process p s else s);
          s2 = (if p \<in> dom (input_queues s1) then unregister_queue p s1 else s1);
          s3 = (if p \<in> dom (process_needs_input s2) then unregister_flag p s2 else s2)
      in (kill_if_alive fr, remove_workspace fr s3))"

text \<open>
  \<^verbatim>\<open>run_code_with_input\<close> of \<^verbatim>\<open>app.py\<close>. The result is \<open>None\<close> when the turns of the
  environment end before the monitoring loop does.
\<close>

definition run_code_with_input :: "thread_args \<Rightarrow> env \<Rightarrow> state \<Rightarrow> (frame \<times> state) option" where
  "run_code_with_input a e s =
     (let p = arg_process_id a; room = arg_session_id a in
      case launch a e s of
        Inl (err, fr, s1) \<Rightarrow>
          Some (cleanup p (fr, emit (code_output p (ExecutionError err) ''error'') room s1))
      | Inr (h, fr, s1) \<Rightarrow>
          (case monitor p room (arg_timeout_seconds a) h (ticks e) s1 of
             None \<Rightarrow> None
           | Some (Raised err, s2) \<Rightarrow>
               Some (cleanup p (fr, emit (code_output p (ExecutionError err) ''error'') room s2))
           | Some (ending, s2) \<Rightarrow>
               (let rc = observed_returncode ending e
                in Some (cleanup p
                     (fr\<lparr>returncode := rc\<rparr>,
                      emit (code_complete p (completion_status rc)) room s2)))))"

subsection \<open>The supervisor of \<^verbatim>\<open>aappp.py\<close>\<close>

text \<open>
  What \<^verbatim>\<open>process.communicate(timeout=...)\<close> does: it returns the two texts collected, the
  process having ended with the given return code, or raises \<^verbatim>\<open>subprocess.TimeoutExpired\<close>,
  or raises another exception.
\<close>

datatype communicate = Collected string string int | CommTimeout | CommError string

text \<open>
  \<^item> \<open>named_tempfile\<close>: the file that \<^verbatim>\<open>tempfile.NamedTemporaryFile\<close> creates and the source is
    written to, or the text of the exception raised meanwhile;
  \<^item> \<open>popen_error_aappp\<close>, \<open>executable_aappp\<close>, \<open>ticks_aappp\<close>: as for \<^verbatim>\<open>app.py\<close>;
  \<^item> \<open>communicated\<close>: what the call of \<^verbatim>\<open>process.communicate\<close> that the run comes to does.
\<close>

record env_aappp =
  named_tempfile :: "string + (string \<times> string)"
  popen_error_aappp :: "string option"
  executable_aappp :: string
  ticks_aappp :: "tick list"
  communicated :: communicate

definition create_file :: "string \<times> string \<Rightarrow> state \<Rightarrow> state" where
  "create_file f s =
     s\<lparr>dirs := (dirs s)(fst f \<mapsto>
          insert (snd f) (case dirs s (fst f) of None \<Rightarrow> {} | Some names \<Rightarrow> names))\<rparr>"

definition popen_args_aappp :: "string \<Rightarrow> string \<Rightarrow> bool \<Rightarrow> popen" where
  "popen_args_aappp executable file needs =
     \<lparr>cmd = [executable, file],
      stdin = (if needs then PIPE else NoPipe),
      stdout = PIPE, stderr = PIPE, cwd = None\<rparr>"

definition launch_aappp ::
  "thread_args_aappp \<Rightarrow> env_aappp \<Rightarrow> state \<Rightarrow> (string \<times> frame \<times> state) + (popen \<times> frame \<times> state)" where
  "launch_aappp a e s =
     (case named_tempfile e of
        Inl err \<Rightarrow> Inl (err, no_frame, s)
      | Inr f \<Rightarrow>
          (let s1 = create_file f s;
               fr = no_frame\<lparr>temp_filename := Some f\<rparr>;
               h = popen_args_aappp (executable_aappp e) (fst f @ ''/'' @ snd f)
                     (arg_code_needs_input a)
           in case popen_error_aappp e of
                Some err \<Rightarrow> Inl (err, fr, s1)
              | None \<Rightarrow>
                  Inr (h, fr\<lparr>process := Some h\<rparr>,
                       emit (code_output (arg_process_id a) Started ''system'')
                         (arg_session_id a) (register_process (arg_process_id a) h s1))))"

text \<open>
  Python's \<^verbatim>\<open>repr\<close> of a string, which is the text of a \<^verbatim>\<open>KeyError\<close> for that key: the
  string between apostrophes, or between double quotes when it holds an apostrophe and no
  double quote, with the quote character, the backslash and the characters that are not
  printable escaped.
\<close>

definition printable :: "char \<Rightarrow> bool" where
  "printable c =
     (let n = (of_char c :: nat) in (32 \<le> n \<and> n < 127) \<or> (161 \<le> n \<and> n \<noteq> 173))"

definition hex2 :: "nat \<Rightarrow> string" where
  "hex2 n = [''0123456789abcdef'' ! (n div 16), ''0123456789abcdef'' ! (n mod 16)]"

definition repr_char :: "char \<Rightarrow> char \<Rightarrow> string" where
  "repr_char quote c =
     (if c = quote \<or> c = CHR 0x5C then [CHR 0x5C, c]
      else if c = CHR 0x09 then [CHR 0x5C, CHR ''t'']
      else if c = CHR 0x0A then [CHR 0x5C, CHR ''n'']
      else if c = CHR 0x0D then [CHR 0x5C, CHR ''r'']
      else if printable c then [c]
      else [CHR 0x5C, CHR ''x''] @ hex2 (of_char c))"

definition repr :: "string \<Rightarrow> string" where
  "repr k =
     (let quote = (if sq \<in> set k \<and> dq \<notin> set k then dq else sq)
      in [quote] @ concat (map (repr_char quote) k) @ [quote])"

text \<open>
  The loop of lines 211 to 240: \<^verbatim>\<open>while process.poll() is None\<close>, with the fixed timeout
  of 30 seconds. A missing mailbox (\<^verbatim>\<open>KeyError\<close>, whose text is the \<^verbatim>\<open>repr\<close> of the key) and
  a failed write other than a broken pipe leave the loop as exceptions; a broken pipe ends
  the loop.
\<close>

datatype loop_end_aappp = Exited_aappp int | TimedOut_aappp | PipeBroken | Raised_aappp string

fun monitor_aappp ::
  "pid \<Rightarrow> string option \<Rightarrow> tick list \<Rightarrow> state \<Rightarrow> (loop_end_aappp \<times> state) option" where
  "monitor_aappp p room [] s = None"
| "monitor_aappp p room (t # ts) s =
     (case poll t of
        Some rc \<Rightarrow> Some (Exited_aappp rc, s)
      | None \<Rightarrow>
          if elapsed t > 30
          then Some (TimedOut_aappp, emit (code_output p (TimedOutAfter 30) ''error'') room s)
          else
            (case input_queues s p of
               None \<Rightarrow> Some (Raised_aappp (repr p), s)
             | Some q \<Rightarrow>
                 (case q @ arrivals t of
                    [] \<Rightarrow> monitor_aappp p room ts s
                  | line # rest \<Rightarrow>
                      (let s1 = s\<lparr>input_queues := (input_queues s)(p \<mapsto> rest)\<rparr>
                       in case write_result t of
                            Written \<Rightarrow> monitor_aappp p room ts (emit (input_received p) room s1)
                          | BrokenPipe \<Rightarrow> Some (PipeBroken, s1)
                          | WriteError err \<Rightarrow> Some (Raised_aappp err, s1)))))"

definition emit_collected :: "pid \<Rightarrow> string option \<Rightarrow> string \<Rightarrow> string \<Rightarrow> state \<Rightarrow> state" where
  "emit_collected p room out err s =
     (let s1 = (if out \<noteq> [] then emit (code_output p (Text out) ''stdout'') room s else s)
      in if err \<noteq> [] then emit (code_output p (Text err) ''stderr'') room s1 else s1)"

text \<open>The \<^verbatim>\<open>finally\<close> block, lines 278 to 291: the process is not killed here.\<close>

definition remove_tempfile :: "frame \<Rightarrow> state \<Rightarrow> state" where
  "remove_tempfile fr s =
     (case temp_filename fr of
        Some f \<Rightarrow> if path_exists f s then (case unlink f s of None \<Rightarrow> s | Some s1 \<Rightarrow> s1) else s
      | None \<Rightarrow> s)"

definition cleanup_aappp :: "pid \<Rightarrow> frame \<times> state \<Rightarrow> frame \<times> state" where
  "cleanup_aappp p fs =
     (let fr = fst fs; s = snd fs;
          s1 = (if p \<in> dom (running_processes s) then unregister_process p s else s);
          s2 = (if p \<in> dom (input_queues s1) then unregister_queue p s1 else s1);
          s3 = (if p \<in> dom (process_needs_input s2) then unregister_flag p s2 else s2)
      in (fr, remove_tempfile fr s3))"

text \<open>
  The return code that the process object holds: \<^verbatim>\<open>poll\<close> and \<^verbatim>\<open>communicate\<close> set it when
  they find that the process has ended, and it is never set anew. \<^verbatim>\<open>process.kill()\<close> does
  nothing to a process that has ended; a killed process ends with -9.
\<close>

definition exited :: "int \<Rightarrow> frame \<Rightarrow> frame" where
  "exited rc fr = (if returncode fr = None then fr\<lparr>returncode := Some rc\<rparr> else fr)"

definition killed :: "frame \<Rightarrow> frame" where
  "killed fr = (if returncode fr = None then fr\<lparr>returncode := Some (- 9)\<rparr> else fr)"

definition after_loop_aappp :: "loop_end_aappp \<Rightarrow> frame \<Rightarrow> frame" where
  "after_loop_aappp ending fr = (case ending of Exited_aappp rc \<Rightarrow> exited rc fr | _ \<Rightarrow> fr)"

text \<open>
  \<^verbatim>\<open>run_code_with_input\<close> of \<^verbatim>\<open>aappp.py\<close>: without input handling the supervisor waits for
  the process with \<^verbatim>\<open>communicate(timeout=30)\<close>; with it, the loop runs and the rest of the
  output is collected with \<^verbatim>\<open>communicate(timeout=2)\<close>.
\<close>

definition run_code_with_input_aappp ::
  "thread_args_aappp \<Rightarrow> env_aappp \<Rightarrow> state \<Rightarrow> (frame \<times> state) option" where
  "run_code_with_input_aappp a e s =
     (let p = arg_process_id a; room = arg_session_id a in
      case launch_aappp a e s of
        Inl (err, fr, s1) \<Rightarrow>
          Some (cleanup_aappp p (fr, emit (code_output p (ExecutionError err) ''error'') room s1))
      | Inr (h, fr, s1) \<Rightarrow>
          if \<not> arg_code_needs_input a then
            (case communicated e of
               Collected out err rc \<Rightarrow>
                 Some (cleanup_aappp p
                   (exited rc fr,
                    emit (code_complete p ''completed'') room (emit_collected p room out err s1)))
             | CommTimeout \<Rightarrow>
                 Some (cleanup_aappp p
                   (killed fr, emit (code_output p (TimedOutAfter 30) ''error'') room s1))
             | CommError err \<Rightarrow>
                 Some (cleanup_aappp p
                   (fr, emit (code_output p (ExecutionError err) ''error'') room s1)))
          else
            (case monitor_aappp p room (ticks_aappp e) s1 of
               None \<Rightarrow> None
             | Some (Raised_aappp err, s2) \<Rightarrow>
                 Some (cleanup_aappp p
                   (fr, emit (code_output p (ExecutionError err) ''error'') room s2))
             | Some (ending, s2) \<Rightarrow>
                 (case communicated e of
                    Collected out err rc \<Rightarrow>
                      Some (cleanup_aappp p
                        (exited rc (after_loop_aappp ending fr),
                         emit (code_complete p ''completed'') room
                           (emit_collected p room out err s2)))
                  | CommTimeout \<Rightarrow>
                      Some (cleanup_aappp p
                        (killed (after_loop_aappp ending fr),
                         emit (code_complete p ''completed'') room s2))
                  | CommError err \<Rightarrow>
                      Some (cleanup_aappp p
                        (after_loop_aappp ending fr,
                         emit (code_output p (ExecutionError err) ''error'') room s2)))))"

section \<open>Properties\<close>

subsection \<open>Examples\<close>

definition empty_state :: state where
  "empty_state =
     \<lparr>running_processes = Map.empty, input_queues = Map.empty,
      process_needs_input = Map.empty, emitted = [], dirs = Map.empty, readonly = False\<rparr>"

text \<open>The state in which the execution \<open>p1\<close> has been accepted and waits for input.\<close>

definition waiting_state :: state where
  "waiting_state =
     \<lparr>running_processes = Map.empty, input_queues = [''p1'' \<mapsto> []],
      process_needs_input = [''p1'' \<mapsto> True], emitted = [], dirs = Map.empty,
      readonly = False\<rparr>"

definition feed_request :: request where
  "feed_request =
     \<lparr>code = ''print(1)'', session_id = Some ''room'', user_input = ''5'',
      process_id = Some ''p1'', timeout_seconds = None, use_docker = False,
      docker_packages = []\<rparr>"

definition empty_feed_request :: request where
  "empty_feed_request =
     \<lparr>code = [], session_id = Some ''room'', user_input = [],
      process_id = Some ''p1'', timeout_seconds = None, use_docker = False,
      docker_packages = []\<rparr>"

text \<open>The emissions at the end of a run of a supervisor, in order.\<close>

definition emissions :: "(frame \<times> state) option \<Rightarrow> (string option \<times> event) list option" where
  "emissions r = map_option (\<lambda>fs. emitted (snd fs)) r"

definition start_request :: request where
  "start_request =
     \<lparr>code = ''x = input()'', session_id = Some ''room'', user_input = [],
      process_id = None, timeout_seconds = Some (Inr 200), use_docker = False,
      docker_packages = []\<rparr>"

definition alive_tick :: "rat \<Rightarrow> tick" where
  "alive_tick secs = \<lparr>poll = None, elapsed = secs, arrivals = [], write_result = Written\<rparr>"

definition started_args_aappp :: thread_args_aappp where
  "started_args_aappp =
     \<lparr>arg_code = ''x = input()'', arg_process_id = ''p1'', arg_session_id = Some ''room'',
      arg_code_needs_input = True\<rparr>"

text \<open>A child that is still running after 31 seconds, and again 2 seconds later.\<close>

definition slow_env_aappp :: env_aappp where
  "slow_env_aappp =
     \<lparr>named_tempfile = Inr (''/tmp'', ''tmpab12.py''), popen_error_aappp = None,
      executable_aappp = ''python'', ticks_aappp = [alive_tick 31], communicated = CommTimeout\<rparr>"

definition started_args :: thread_args where
  "started_args =
     \<lparr>arg_code = ''x = input()'', arg_process_id = ''p1'', arg_session_id = Some ''room'',
      arg_code_needs_input = True, arg_timeout_seconds = 120, arg_use_docker = True,
      arg_docker_packages = [''numpy'']\<rparr>"

text \<open>A host with Docker, and a child that is still running after 121 seconds.\<close>

definition slow_env :: env where
  "slow_env =
     \<lparr>mkdtemp = Inr ''/tmp/siren_exec_1'', write_source = None, datasets = NoDatasets,
      docker_found = True, sys_executable = ''python'', popen_error = None,
      ticks = [alive_tick 121], final_poll = Some (- 9)\<rparr>"

subsection \<open>Feeding input\<close>

lemma feed_target_Some:
  "process_id data = Some p \<Longrightarrow> p \<noteq> [] \<Longrightarrow> user_input data \<noteq> [] \<Longrightarrow> feed_target data = Some p"
  by (simp add: feed_target_def)

lemma feed_target_SomeD:
  "feed_target data = Some p \<Longrightarrow> process_id data = Some p \<and> p \<noteq> [] \<and> user_input data \<noteq> []"
  by (auto simp: feed_target_def split: option.splits if_splits)

lemma feed_target_code [simp]: "feed_target (data\<lparr>code := c\<rparr>) = feed_target data"
  by (simp add: feed_target_def split: option.splits)

lemma int_timeout_seconds_code [simp]:
  "int_timeout_seconds (data\<lparr>code := c\<rparr>) = int_timeout_seconds data"
  by (simp add: int_timeout_seconds_def)

text \<open>
  A state differs from another in the mailbox of \<open>p\<close> at most: the process registry, the
  flag registry, the emissions and the files are the same, the mailbox registry has the
  same keys, and every other mailbox is the same.
\<close>

definition only_mailbox_changed :: "pid \<Rightarrow> state \<Rightarrow> state \<Rightarrow> bool" where
  "only_mailbox_changed p s s' =
     (running_processes s' = running_processes s \<and>
      process_needs_input s' = process_needs_input s \<and>
      emitted s' = emitted s \<and> dirs s' = dirs s \<and> readonly s' = readonly s \<and>
      dom (input_queues s') = dom (input_queues s) \<and>
      (\<forall>k. k \<noteq> p \<longrightarrow> input_queues s' k = input_queues s k))"

lemma only_mailbox_changed_refl: "only_mailbox_changed p s s"
  by (simp add: only_mailbox_changed_def)

lemma only_mailbox_changed_put_line:
  "input_queues s p = Some q \<Longrightarrow> only_mailbox_changed p s (put_line p q line s)"
  by (auto simp: only_mailbox_changed_def put_line_def)

text \<open>The feed branch of the three handlers, for a feed request.\<close>

lemma run_code_feed:
  assumes "feed_target data = Some p"
  shows "run_code data new_id te s =
     (case int_timeout_seconds data of
        Inl raised \<Rightarrow> Inl raised
      | Inr v \<Rightarrow>
          Inr (case input_queues s p of
                 Some q \<Rightarrow> (input_sent, None, put_line p q (user_input data) s)
               | None \<Rightarrow> (not_found, None, s)))"
  using assms by (simp add: run_code_def Let_def split: sum.splits)

lemma run_code_aappp_feed:
  assumes "feed_target data = Some p"
  shows "run_code_aappp data new_id te s =
     (case input_queues s p of
        Some q \<Rightarrow> (input_sent, None, put_line p q (user_input data) s)
      | None \<Rightarrow> (not_found, None, s))"
  using assms by (simp add: run_code_aappp_def)

text \<open>
  C9, as the code has it. A \<^verbatim>\<open>/run_code\<close> request that carries a process id that is not
  empty and an input that is not empty starts nothing, in both variants: no thread is
  started, the outcome depends neither on the code submitted nor on the fresh id that a
  start would allocate (nor on whether a thread could be started), and the state differs
  from the state before in the mailbox named at most. When the conversion of
  \<^verbatim>\<open>timeout_seconds\<close> in \<^verbatim>\<open>app.py\<close> returns, the request is handled as an input feed there,
  with the same answer and the same new state as in \<^verbatim>\<open>aappp.py\<close>.
\<close>

theorem run_code_feed_only:
  assumes "process_id data = Some p" and "p \<noteq> []" and "user_input data \<noteq> []"
  shows "started (run_code data new_id te s) = None \<and>
         fst (snd (run_code_aappp data new_id te s)) = None \<and>
         run_code (data\<lparr>code := c\<rparr>) new_id' te' s = run_code data new_id te s \<and>
         run_code_aappp (data\<lparr>code := c\<rparr>) new_id' te' s = run_code_aappp data new_id te s \<and>
         only_mailbox_changed p s (state_after s (run_code data new_id te s)) \<and>
         only_mailbox_changed p s (snd (snd (run_code_aappp data new_id te s))) \<and>
         (int_timeout_seconds data = Inr v \<longrightarrow>
            answer (run_code data new_id te s) = Some (fst (run_code_aappp data new_id te s)) \<and>
            state_after s (run_code data new_id te s) =
              snd (snd (run_code_aappp data new_id te s)))"
proof -
  have ft: "feed_target data = Some p"
    using assms by (rule feed_target_Some)
  have ft': "feed_target (data\<lparr>code := c\<rparr>) = Some p"
    using ft by simp
  note app = run_code_feed [OF ft] run_code_feed [OF ft']
  note old = run_code_aappp_feed [OF ft] run_code_aappp_feed [OF ft']
  have 1: "started (run_code data new_id te s) = None"
    by (simp add: app started_def split: sum.splits option.splits)
  have 2: "fst (snd (run_code_aappp data new_id te s)) = None"
    by (simp add: old split: option.splits)
  have 3: "run_code (data\<lparr>code := c\<rparr>) new_id' te' s = run_code data new_id te s"
    by (simp add: app split: sum.splits option.splits)
  have 4: "run_code_aappp (data\<lparr>code := c\<rparr>) new_id' te' s = run_code_aappp data new_id te s"
    by (simp add: old split: option.splits)
  have 5: "only_mailbox_changed p s (state_after s (run_code data new_id te s))"
    by (simp add: app state_after_def only_mailbox_changed_refl only_mailbox_changed_put_line
        split: sum.splits option.splits)
  have 6: "only_mailbox_changed p s (snd (snd (run_code_aappp data new_id te s)))"
    by (simp add: old only_mailbox_changed_refl only_mailbox_changed_put_line
        split: option.splits)
  have 7: "int_timeout_seconds data = Inr v \<longrightarrow>
      answer (run_code data new_id te s) = Some (fst (run_code_aappp data new_id te s)) \<and>
      state_after s (run_code data new_id te s) = snd (snd (run_code_aappp data new_id te s))"
    by (simp add: app old answer_def state_after_def split: option.splits)
  show ?thesis
    using 1 2 3 4 5 6 7 by blast
qed

theorem run_code_feed_only_witness:
  "process_id feed_request = Some ''p1'' \<and> ''p1'' \<noteq> [] \<and> user_input feed_request \<noteq> [] \<and>
   int_timeout_seconds feed_request = Inr 120 \<and>
   started (run_code feed_request ''new'' None waiting_state) = None \<and>
   state_after waiting_state (run_code feed_request ''new'' None waiting_state) =
     snd (snd (run_code_aappp feed_request ''new'' None waiting_state)) \<and>
   input_queues (snd (snd (run_code_aappp feed_request ''new'' None waiting_state))) ''p1'' =
     Some [''5'' @ [newline]] \<and>
   only_mailbox_changed ''p1'' waiting_state
     (state_after waiting_state (run_code feed_request ''new'' None waiting_state))"
proof -
  have h: "process_id feed_request = Some ''p1''" "''p1'' \<noteq> []" "user_input feed_request \<noteq> []"
    by (simp_all add: feed_request_def)
  have t: "int_timeout_seconds feed_request = Inr 120"
    by (simp add: int_timeout_seconds_def feed_request_def)
  have q: "input_queues (snd (snd (run_code_aappp feed_request ''new'' None waiting_state))) ''p1'' =
     Some [''5'' @ [newline]]"
    by (simp add: run_code_aappp_def feed_target_def feed_request_def waiting_state_def
        put_line_def)
  show ?thesis
    using h t q run_code_feed_only [OF h, where new_id = "''new''" and te = None and s = waiting_state
        and v = 120]
    by simp
qed

text \<open>
  The claim C9 as stated fails for a request whose process id is the empty string: the
  test \<^verbatim>\<open>process_id and user_input\<close> is false for it, so the request, which carries a
  process id and the input \<open>5\<close>, starts an execution of its code under a new id, in both
  variants.
\<close>

definition unnamed_feed_request :: request where
  "unnamed_feed_request =
     \<lparr>code = ''print(1)'', session_id = Some ''room'', user_input = ''5'',
      process_id = Some [], timeout_seconds = None, use_docker = False,
      docker_packages = []\<rparr>"

theorem run_code_feed_only_counterexample:
  "process_id unnamed_feed_request = Some [] \<and>
   user_input unnamed_feed_request = ''5'' \<and>
   map_option arg_process_id (started (run_code unnamed_feed_request ''new'' None waiting_state)) =
     Some ''new'' \<and>
   map_option arg_code (started (run_code unnamed_feed_request ''new'' None waiting_state)) =
     Some ''print(1)'' \<and>
   input_queues waiting_state ''new'' = None \<and>
   input_queues (state_after waiting_state (run_code unnamed_feed_request ''new'' None waiting_state))
     ''new'' = Some [] \<and>
   map_option arg_process_id (fst (snd (run_code_aappp unnamed_feed_request ''new'' None waiting_state))) =
     Some ''new'' \<and>
   input_queues (snd (snd (run_code_aappp unnamed_feed_request ''new'' None waiting_state))) ''new'' =
     Some []"
  by (simp add: run_code_def run_code_aappp_def feed_target_def unnamed_feed_request_def
      waiting_state_def int_timeout_seconds_def started_def state_after_def Let_def
      register_queue_def register_flag_def)

text \<open>
  C10. \<^verbatim>\<open>/provide_input\<close> rejects a request whose input is empty or whose process id is
  missing (or empty) with an error status and leaves the state as it is. A mailbox that a
  handler of either variant leaves behind is the mailbox as it was, or the empty mailbox of
  an execution just accepted, or the mailbox as it was with one more line at its end: a
  non-empty submitted text followed by one newline.
\<close>

theorem provide_input_rejects_empty:
  "(user_input data = [] \<or> process_id data = None \<or> process_id data = Some [] \<longrightarrow>
      provide_input data s =
        ([(''status'', JStr ''error''), (''message'', JStr ''Process ID and input are required'')], s)) \<and>
   (\<forall>k q'. input_queues (snd (provide_input data s)) k = Some q' \<longrightarrow>
      input_queues s k = Some q' \<or>
      (\<exists>q. input_queues s k = Some q \<and> user_input data \<noteq> [] \<and>
           q' = q @ [user_input data @ [newline]])) \<and>
   (\<forall>k q'. input_queues (state_after s (run_code data new_id te s)) k = Some q' \<longrightarrow>
      input_queues s k = Some q' \<or> q' = [] \<or>
      (\<exists>q. input_queues s k = Some q \<and> user_input data \<noteq> [] \<and>
           q' = q @ [user_input data @ [newline]])) \<and>
   (\<forall>k q'. input_queues (snd (snd (run_code_aappp data new_id te s))) k = Some q' \<longrightarrow>
      input_queues s k = Some q' \<or> q' = [] \<or>
      (\<exists>q. input_queues s k = Some q \<and> user_input data \<noteq> [] \<and>
           q' = q @ [user_input data @ [newline]]))"
proof (intro conjI)
  show "user_input data = [] \<or> process_id data = None \<or> process_id data = Some [] \<longrightarrow>
      provide_input data s =
        ([(''status'', JStr ''error''), (''message'', JStr ''Process ID and input are required'')], s)"
    by (auto simp: provide_input_def feed_target_def input_required_def split: option.splits)
next
  show "\<forall>k q'. input_queues (snd (provide_input data s)) k = Some q' \<longrightarrow>
      input_queues s k = Some q' \<or>
      (\<exists>q. input_queues s k = Some q \<and> user_input data \<noteq> [] \<and>
           q' = q @ [user_input data @ [newline]])"
    by (auto simp: provide_input_def put_line_def dest: feed_target_SomeD
        split: option.splits if_splits)
next
  show "\<forall>k q'. input_queues (state_after s (run_code data new_id te s)) k = Some q' \<longrightarrow>
      input_queues s k = Some q' \<or> q' = [] \<or>
      (\<exists>q. input_queues s k = Some q \<and> user_input data \<noteq> [] \<and>
           q' = q @ [user_input data @ [newline]])"
    by (auto simp: run_code_def state_after_def put_line_def register_queue_def
        register_flag_def Let_def
        dest: feed_target_SomeD split: sum.splits option.splits if_splits)
next
  show "\<forall>k q'. input_queues (snd (snd (run_code_aappp data new_id te s))) k = Some q' \<longrightarrow>
      input_queues s k = Some q' \<or> q' = [] \<or>
      (\<exists>q. input_queues s k = Some q \<and> user_input data \<noteq> [] \<and>
           q' = q @ [user_input data @ [newline]])"
    by (auto simp: run_code_aappp_def put_line_def register_queue_def register_flag_def Let_def
        dest: feed_target_SomeD split: option.splits if_splits)
qed

theorem provide_input_rejects_empty_witness:
  "user_input empty_feed_request = [] \<and>
   provide_input empty_feed_request waiting_state =
     ([(''status'', JStr ''error''), (''message'', JStr ''Process ID and input are required'')],
      waiting_state) \<and>
   input_queues (snd (provide_input feed_request waiting_state)) ''p1'' = Some [''5'' @ [newline]] \<and>
   (input_queues waiting_state ''p1'' = Some [''5'' @ [newline]] \<or>
    (\<exists>q. input_queues waiting_state ''p1'' = Some q \<and> user_input feed_request \<noteq> [] \<and>
         [''5'' @ [newline]] = q @ [user_input feed_request @ [newline]]))"
proof -
  have e: "user_input empty_feed_request = []"
    by (simp add: empty_feed_request_def)
  have q: "input_queues (snd (provide_input feed_request waiting_state)) ''p1'' =
      Some [''5'' @ [newline]]"
    by (simp add: provide_input_def feed_target_def feed_request_def waiting_state_def put_line_def)
  from provide_input_rejects_empty [of empty_feed_request waiting_state] e
  have r: "provide_input empty_feed_request waiting_state =
     ([(''status'', JStr ''error''), (''message'', JStr ''Process ID and input are required'')],
      waiting_state)"
    by blast
  from provide_input_rejects_empty [of feed_request waiting_state] q
  have l: "input_queues waiting_state ''p1'' = Some [''5'' @ [newline]] \<or>
    (\<exists>q. input_queues waiting_state ''p1'' = Some q \<and> user_input feed_request \<noteq> [] \<and>
         [''5'' @ [newline]] = q @ [user_input feed_request @ [newline]])"
    by blast
  show ?thesis
    using e r q l by blast
qed





subsection \<open>The pipes of the child\<close>

lemma popen_args_pipes:
  "stdin (popen_args x d needs docker pk f) = (if needs then PIPE else NoPipe) \<and>
   stdout (popen_args x d needs docker pk f) = PIPE \<and>
   stderr (popen_args x d needs docker pk f) = PIPE"
  by (simp add: popen_args_def Let_def)

lemma launch_process:
  assumes "launch a e s = Inr (h, fr, s')"
  shows "process fr = Some h \<and> running_processes s' (arg_process_id a) = Some h \<and>
         (\<exists>d docker. h = popen_args (sys_executable e) d (arg_code_needs_input a) docker
                          (arg_docker_packages a) (d @ ''/program.py''))"
  using assms
  by (auto simp: launch_def Let_def register_process_def emit_def
      split: sum.splits option.splits if_splits)

lemma launch_aappp_process:
  assumes "launch_aappp a e s = Inr (h, fr, s')"
  shows "process fr = Some h \<and> running_processes s' (arg_process_id a) = Some h \<and>
         (\<exists>f. h = popen_args_aappp (executable_aappp e) f (arg_code_needs_input a))"
  using assms
  by (auto simp: launch_aappp_def Let_def register_process_def emit_def
      split: sum.splits option.splits if_splits)

text \<open>
  C6. Whenever a launch succeeds, in either variant and with either backend, the child
  has a standard-input pipe exactly when the needs-input flag is true, and pipes for
  standard output and standard error in every case; this is the process that is
  registered for the execution.
\<close>

theorem stdin_pipe_iff_needs_input:
  "(launch a e s = Inr (h, fr, s') \<longrightarrow>
      (stdin h = PIPE) = arg_code_needs_input a \<and> stdout h = PIPE \<and> stderr h = PIPE \<and>
      process fr = Some h \<and> running_processes s' (arg_process_id a) = Some h) \<and>
   (launch_aappp a' e' s = Inr (h', fr', s'') \<longrightarrow>
      (stdin h' = PIPE) = arg_code_needs_input a' \<and> stdout h' = PIPE \<and> stderr h' = PIPE \<and>
      process fr' = Some h' \<and> running_processes s'' (arg_process_id a') = Some h')"
proof (intro conjI impI)
  assume l: "launch a e s = Inr (h, fr, s')"
  from launch_process [OF l] obtain d docker where
    h: "h = popen_args (sys_executable e) d (arg_code_needs_input a) docker
              (arg_docker_packages a) (d @ ''/program.py'')"
    by blast
  show "(stdin h = PIPE) = arg_code_needs_input a"
    by (simp add: h popen_args_pipes)
  show "stdout h = PIPE"
    by (simp add: h popen_args_pipes)
  show "stderr h = PIPE"
    by (simp add: h popen_args_pipes)
  show "process fr = Some h"
    using launch_process [OF l] by blast
  show "running_processes s' (arg_process_id a) = Some h"
    using launch_process [OF l] by blast
next
  assume l: "launch_aappp a' e' s = Inr (h', fr', s'')"
  from launch_aappp_process [OF l] obtain f where
    h: "h' = popen_args_aappp (executable_aappp e') f (arg_code_needs_input a')"
    by blast
  show "(stdin h' = PIPE) = arg_code_needs_input a'"
    by (simp add: h popen_args_aappp_def)
  show "stdout h' = PIPE"
    by (simp add: h popen_args_aappp_def)
  show "stderr h' = PIPE"
    by (simp add: h popen_args_aappp_def)
  show "process fr' = Some h'"
    using launch_aappp_process [OF l] by blast
  show "running_processes s'' (arg_process_id a') = Some h'"
    using launch_aappp_process [OF l] by blast
qed

theorem stdin_pipe_iff_needs_input_witness:
  "(\<exists>h fr s'. launch started_args slow_env waiting_state = Inr (h, fr, s') \<and>
       stdin h = PIPE \<and> stdout h = PIPE \<and> stderr h = PIPE \<and> hd (cmd h) = ''docker'') \<and>
   (\<exists>h fr s'. launch (started_args\<lparr>arg_code_needs_input := False, arg_use_docker := False\<rparr>)
                 slow_env waiting_state = Inr (h, fr, s') \<and>
       stdin h = NoPipe \<and> stdout h = PIPE \<and> stderr h = PIPE \<and> hd (cmd h) = ''python'') \<and>
   (\<exists>h fr s'. launch_aappp started_args_aappp slow_env_aappp waiting_state = Inr (h, fr, s') \<and>
       stdin h = PIPE \<and> stdout h = PIPE \<and> stderr h = PIPE)"
proof -
  obtain h1 fr1 s1 where 1: "launch started_args slow_env waiting_state = Inr (h1, fr1, s1)"
    and c1: "hd (cmd h1) = ''docker''"
    by (simp add: launch_def started_args_def slow_env_def Let_def popen_args_def)
  obtain h2 fr2 s2 where
    2: "launch (started_args\<lparr>arg_code_needs_input := False, arg_use_docker := False\<rparr>)
          slow_env waiting_state = Inr (h2, fr2, s2)"
    and c2: "hd (cmd h2) = ''python''"
    by (simp add: launch_def started_args_def slow_env_def Let_def popen_args_def)
  obtain h3 fr3 s3 where
    3: "launch_aappp started_args_aappp slow_env_aappp waiting_state = Inr (h3, fr3, s3)"
    by (simp add: launch_aappp_def started_args_aappp_def slow_env_aappp_def Let_def)
  have n1: "arg_code_needs_input started_args"
    by (simp add: started_args_def)
  have n2: "\<not> arg_code_needs_input
      (started_args\<lparr>arg_code_needs_input := False, arg_use_docker := False\<rparr>)"
    by simp
  have n3: "arg_code_needs_input started_args_aappp"
    by (simp add: started_args_aappp_def)
  from stdin_pipe_iff_needs_input [of started_args slow_env waiting_state h1 fr1 s1
      started_args_aappp slow_env_aappp h3 fr3 s3] 1 3 n1 n3
  have p1: "stdin h1 = PIPE \<and> stdout h1 = PIPE \<and> stderr h1 = PIPE"
    and p3: "stdin h3 = PIPE \<and> stdout h3 = PIPE \<and> stderr h3 = PIPE"
    by blast+
  from stdin_pipe_iff_needs_input [of
      "started_args\<lparr>arg_code_needs_input := False, arg_use_docker := False\<rparr>"
      slow_env waiting_state h2 fr2 s2 started_args_aappp slow_env_aappp h3 fr3 s3] 2 n2
  have "stdin h2 \<noteq> PIPE \<and> stdout h2 = PIPE \<and> stderr h2 = PIPE"
    by blast
  then have p2: "stdin h2 = NoPipe \<and> stdout h2 = PIPE \<and> stderr h2 = PIPE"
    by (cases "stdin h2") auto
  show ?thesis
    using 1 2 3 c1 c2 p1 p2 p3 by blast
qed

subsection \<open>Cleanup\<close>

lemma remove_workspace_fields [simp]:
  "running_processes (remove_workspace fr s) = running_processes s"
  "input_queues (remove_workspace fr s) = input_queues s"
  "process_needs_input (remove_workspace fr s) = process_needs_input s"
  "emitted (remove_workspace fr s) = emitted s"
  "readonly (remove_workspace fr s) = readonly s"
  by (auto simp: remove_workspace_def unlink_def rmdir_def split: option.splits if_splits)

lemma remove_tempfile_fields [simp]:
  "running_processes (remove_tempfile fr s) = running_processes s"
  "input_queues (remove_tempfile fr s) = input_queues s"
  "process_needs_input (remove_tempfile fr s) = process_needs_input s"
  "emitted (remove_tempfile fr s) = emitted s"
  "readonly (remove_tempfile fr s) = readonly s"
  by (auto simp: remove_tempfile_def unlink_def split: option.splits if_splits)

text \<open>What the removal leaves depends on the files and on \<open>readonly\<close> only.\<close>

lemma remove_workspace_registries:
  "remove_workspace fr (s\<lparr>running_processes := r, input_queues := q, process_needs_input := n\<rparr>) =
   (remove_workspace fr s)\<lparr>running_processes := r, input_queues := q, process_needs_input := n\<rparr>"
  by (auto simp: remove_workspace_def unlink_def rmdir_def path_exists_def
      split: option.splits if_splits)

lemma remove_tempfile_registries:
  "remove_tempfile fr (s\<lparr>running_processes := r, input_queues := q, process_needs_input := n\<rparr>) =
   (remove_tempfile fr s)\<lparr>running_processes := r, input_queues := q, process_needs_input := n\<rparr>"
  by (auto simp: remove_tempfile_def unlink_def path_exists_def split: option.splits if_splits)

text \<open>
  The two stages of the removal: the source file first, then the directory, which goes
  only when it is empty.
\<close>

definition remove_file :: "(string \<times> string) option \<Rightarrow> state \<Rightarrow> state option" where
  "remove_file fo s =
     (case fo of
        Some f \<Rightarrow> if path_exists f s then unlink f s else Some s
      | None \<Rightarrow> Some s)"

definition remove_dir :: "string option \<Rightarrow> state \<Rightarrow> state" where
  "remove_dir dir s =
     (case dir of
        Some d \<Rightarrow> if dirs s d \<noteq> None then (case rmdir d s of None \<Rightarrow> s | Some s2 \<Rightarrow> s2) else s
      | None \<Rightarrow> s)"

definition gone :: "(string \<times> string) option \<Rightarrow> state \<Rightarrow> bool" where
  "gone fo s = (case fo of None \<Rightarrow> True | Some f \<Rightarrow> \<not> path_exists f s)"

lemma remove_workspace_stages:
  "remove_workspace fr s =
     (case remove_file (temp_filename fr) s of
        None \<Rightarrow> s
      | Some s1 \<Rightarrow> remove_dir (temp_dir fr) s1)"
  by (simp add: remove_workspace_def remove_file_def remove_dir_def cong: option.case_cong)

lemma remove_file_gone: "remove_file fo s = Some t \<Longrightarrow> gone fo t"
  by (cases fo)
    (auto simp: remove_file_def gone_def unlink_def path_exists_def
      split: option.splits if_splits)

lemma gone_remove_file: "gone fo s \<Longrightarrow> remove_file fo s = Some s"
  by (cases fo) (simp_all add: remove_file_def gone_def)

lemma gone_remove_dir: "gone fo s \<Longrightarrow> gone fo (remove_dir dir s)"
  by (cases fo; cases dir)
    (auto simp: gone_def remove_dir_def rmdir_def path_exists_def
      split: option.splits if_splits)

lemma remove_dir_idem: "remove_dir dir (remove_dir dir s) = remove_dir dir s"
  by (cases dir) (auto simp: remove_dir_def rmdir_def split: option.splits if_splits)

lemma remove_workspace_idem:
  "remove_workspace fr (remove_workspace fr s) = remove_workspace fr s"
proof (cases "remove_file (temp_filename fr) s")
  case None
  then show ?thesis
    by (simp add: remove_workspace_stages)
next
  case (Some s1)
  have "gone (temp_filename fr) (remove_dir (temp_dir fr) s1)"
    using Some by (intro gone_remove_dir remove_file_gone)
  then have "remove_file (temp_filename fr) (remove_dir (temp_dir fr) s1) =
      Some (remove_dir (temp_dir fr) s1)"
    by (rule gone_remove_file)
  then show ?thesis
    using Some by (simp add: remove_workspace_stages remove_dir_idem)
qed

lemma remove_tempfile_idem:
  "remove_tempfile fr (remove_tempfile fr s) = remove_tempfile fr s"
  by (auto simp: remove_tempfile_def unlink_def path_exists_def split: option.splits if_splits)

lemma kill_if_alive_idem: "kill_if_alive (kill_if_alive fr) = kill_if_alive fr"
  by (simp add: kill_if_alive_def)

text \<open>The three guarded deletions of the \<^verbatim>\<open>finally\<close> blocks, as one update of the state.\<close>

definition unregister_all :: "pid \<Rightarrow> state \<Rightarrow> state" where
  "unregister_all p s =
     s\<lparr>running_processes := (running_processes s)(p := None),
       input_queues := (input_queues s)(p := None),
       process_needs_input := (process_needs_input s)(p := None)\<rparr>"

lemma fun_upd_None_absent: "m p = None \<Longrightarrow> m(p := None) = m"
  by (rule ext) simp

lemma guarded_unregisters:
  "(let s1 = (if p \<in> dom (running_processes s) then unregister_process p s else s);
        s2 = (if p \<in> dom (input_queues s1) then unregister_queue p s1 else s1)
    in if p \<in> dom (process_needs_input s2) then unregister_flag p s2 else s2) =
   unregister_all p s"
  by (cases "running_processes s p"; cases "input_queues s p"; cases "process_needs_input s p")
    (simp_all add: unregister_all_def unregister_process_def unregister_queue_def
      unregister_flag_def dom_def Let_def fun_upd_None_absent)

lemma cleanup_eq:
  "cleanup p fs = (kill_if_alive (fst fs), remove_workspace (fst fs) (unregister_all p (snd fs)))"
  using guarded_unregisters [of p "snd fs"] by (simp add: cleanup_def Let_def)

lemma cleanup_aappp_eq:
  "cleanup_aappp p fs = (fst fs, remove_tempfile (fst fs) (unregister_all p (snd fs)))"
  using guarded_unregisters [of p "snd fs"] by (simp add: cleanup_aappp_def Let_def)

lemma unregister_all_remove_workspace:
  "unregister_all p (remove_workspace fr s) = remove_workspace fr (unregister_all p s)"
  by (simp add: unregister_all_def remove_workspace_registries)

lemma unregister_all_remove_tempfile:
  "unregister_all p (remove_tempfile fr s) = remove_tempfile fr (unregister_all p s)"
  by (simp add: unregister_all_def remove_tempfile_registries)

lemma unregister_all_idem: "unregister_all p (unregister_all p s) = unregister_all p s"
  by (simp add: unregister_all_def)

lemma kill_if_alive_files [simp]:
  "temp_filename (kill_if_alive fr) = temp_filename fr"
  "temp_dir (kill_if_alive fr) = temp_dir fr"
  by (simp_all add: kill_if_alive_def)

lemma remove_workspace_kill:
  "remove_workspace (kill_if_alive fr) s = remove_workspace fr s"
  by (simp add: remove_workspace_def cong: option.case_cong)

definition staged_frame :: frame where
  "staged_frame =
     \<lparr>process = Some (popen_args ''python'' ''/tmp/siren_exec_1'' True False []
                        ''/tmp/siren_exec_1/program.py''),
      returncode = None,
      temp_filename = Some (''/tmp/siren_exec_1'', ''program.py''),
      temp_dir = Some ''/tmp/siren_exec_1''\<rparr>"

text \<open>The execution \<open>p1\<close> is running, and the datasets were copied into its workspace.\<close>

definition staged_state :: state where
  "staged_state =
     \<lparr>running_processes =
        [''p1'' \<mapsto> popen_args ''python'' ''/tmp/siren_exec_1'' True False []
                      ''/tmp/siren_exec_1/program.py''],
      input_queues = [''p1'' \<mapsto> []],
      process_needs_input = [''p1'' \<mapsto> True],
      emitted = [(Some ''room'', code_output ''p1'' Started ''system'')],
      dirs = [''/tmp/siren_exec_1'' \<mapsto> {''program.py'', ''data''}],
      readonly = False\<rparr>"

text \<open>
  C4. Running the cleanup of an execution a second time leaves the process object, the
  three registries and the files exactly as the first run left them, in both variants.
  The cleanup emits nothing (the completion event is not part of it), so a second run
  emits no second completion event; and it is a total function: every failure of a
  removal is one of its branches, none leaves it as an exception.
\<close>

theorem cleanup_idempotent:
  "cleanup p (cleanup p fs) = cleanup p fs \<and>
   emitted (snd (cleanup p fs)) = emitted (snd fs) \<and>
   cleanup_aappp p (cleanup_aappp p fs) = cleanup_aappp p fs \<and>
   emitted (snd (cleanup_aappp p fs)) = emitted (snd fs)"
proof (intro conjI)
  show "cleanup p (cleanup p fs) = cleanup p fs"
    by (simp add: cleanup_eq kill_if_alive_idem remove_workspace_kill
        unregister_all_remove_workspace unregister_all_idem remove_workspace_idem)
  show "emitted (snd (cleanup p fs)) = emitted (snd fs)"
    by (simp add: cleanup_eq unregister_all_def)
  show "cleanup_aappp p (cleanup_aappp p fs) = cleanup_aappp p fs"
    by (simp add: cleanup_aappp_eq unregister_all_remove_tempfile unregister_all_idem
        remove_tempfile_idem)
  show "emitted (snd (cleanup_aappp p fs)) = emitted (snd fs)"
    by (simp add: cleanup_aappp_eq unregister_all_def)
qed

theorem cleanup_idempotent_witness:
  "cleanup ''p1'' (cleanup ''p1'' (staged_frame, staged_state)) =
     cleanup ''p1'' (staged_frame, staged_state) \<and>
   dirs (snd (cleanup ''p1'' (staged_frame, staged_state))) ''/tmp/siren_exec_1'' =
     Some {''data''} \<and>
   input_queues (snd (cleanup ''p1'' (staged_frame, staged_state))) ''p1'' = None \<and>
   returncode (fst (cleanup ''p1'' (staged_frame, staged_state))) = Some (- 9) \<and>
   emitted (snd (cleanup ''p1'' (cleanup ''p1'' (staged_frame, staged_state)))) =
     [(Some ''room'', code_output ''p1'' Started ''system'')]"
proof -
  have d: "dirs (snd (cleanup ''p1'' (staged_frame, staged_state))) ''/tmp/siren_exec_1'' =
     Some {''data''}"
    by (auto simp: cleanup_eq unregister_all_def remove_workspace_def staged_frame_def
        staged_state_def path_exists_def unlink_def rmdir_def)
  have q: "input_queues (snd (cleanup ''p1'' (staged_frame, staged_state))) ''p1'' = None"
    by (simp add: cleanup_eq unregister_all_def)
  have k: "returncode (fst (cleanup ''p1'' (staged_frame, staged_state))) = Some (- 9)"
    by (simp add: cleanup_eq kill_if_alive_def staged_frame_def)
  have e: "emitted (snd (staged_frame, staged_state)) =
      [(Some ''room'', code_output ''p1'' Started ''system'')]"
    by (simp add: staged_state_def)
  show ?thesis
    using d q k e cleanup_idempotent [of "''p1''" "(staged_frame, staged_state)"]
    by simp
qed

subsection \<open>The timeout\<close>

text \<open>
  A turn of the loop at which the process is running and the time is not over, and one at
  which the process is running and the time is over.
\<close>

definition in_time :: "rat \<Rightarrow> tick \<Rightarrow> bool" where
  "in_time limit t = (poll t = None \<and> \<not> elapsed t > limit)"

definition overdue :: "rat \<Rightarrow> tick \<Rightarrow> bool" where
  "overdue limit t = (poll t = None \<and> elapsed t > limit)"

text \<open>
  The turns split at the first one at which the time is over, all turns before finding the
  process running.
\<close>

definition first_overdue :: "rat \<Rightarrow> tick list \<Rightarrow> tick list \<Rightarrow> tick \<Rightarrow> tick list \<Rightarrow> bool" where
  "first_overdue limit ts pre t post =
     (ts = pre @ t # post \<and> list_all (in_time limit) pre \<and> overdue limit t)"

definition no_write_error :: "tick \<Rightarrow> bool" where
  "no_write_error t = (case write_result t of WriteError x \<Rightarrow> False | _ \<Rightarrow> True)"

definition timeout_event :: "pid \<Rightarrow> int \<Rightarrow> event" where
  "timeout_event p n = code_output p (TimedOutAfter n) ''error''"

lemma monitor_overdue:
  "overdue (of_int limit) t \<Longrightarrow>
     monitor p room limit h (t # ts) s = Some (TimedOut, emit (timeout_event p limit) room s)"
  by (simp add: overdue_def timeout_event_def)

lemma monitor_within:
  assumes "in_time (of_int limit) t" and "monitor p room limit h (t # ts) s = Some (ending, s')"
  shows "(ending = QueueRemoved \<and> input_queues s p = None) \<or>
         (\<exists>x. ending = Raised x \<and> write_result t = WriteError x) \<or>
         (\<exists>s1. monitor p room limit h ts s1 = Some (ending, s'))"
  using assms
  by (auto simp: in_time_def Let_def split: option.splits list.splits if_splits write_result.splits)

lemma monitor_within_continues:
  assumes "in_time (of_int limit) t" and "no_write_error t" and "input_queues s p \<noteq> None"
  shows "\<exists>s1. monitor p room limit h (t # ts) s = monitor p room limit h ts s1 \<and>
              input_queues s1 p \<noteq> None"
proof -
  from assms(3) obtain q where q: "input_queues s p = Some q"
    by blast
  show ?thesis
  proof (cases "q @ arrivals t")
    case Nil
    then have "monitor p room limit h (t # ts) s = monitor p room limit h ts s"
      using assms(1) q by (simp add: in_time_def)
    then show ?thesis
      using assms(3) by blast
  next
    case (Cons line rest)
    define s1 where "s1 = s\<lparr>input_queues := (input_queues s)(p \<mapsto> rest)\<rparr>"
    have k: "input_queues s1 p \<noteq> None" "input_queues (emit (input_received p) room s1) p \<noteq> None"
      by (simp_all add: s1_def emit_def)
    have "monitor p room limit h (t # ts) s = monitor p room limit h ts s1 \<or>
        monitor p room limit h (t # ts) s =
          monitor p room limit h ts (emit (input_received p) room s1)"
      using assms(1,2) q Cons
      by (cases "write_result t") (simp_all add: in_time_def no_write_error_def s1_def Let_def)
    then show ?thesis
      using k by blast
  qed
qed

text \<open>If the loop ends by the timeout, it does so at the first turn at which the time is over.\<close>

lemma monitor_timed_out:
  "monitor p room limit h ts s = Some (TimedOut, s') \<Longrightarrow>
     \<exists>pre t post s0. first_overdue (of_int limit) ts pre t post \<and>
        s' = emit (timeout_event p limit) room s0"
proof (induction ts arbitrary: s)
  case Nil
  then show ?case by simp
next
  case (Cons x ts)
  show ?case
  proof (cases "poll x")
    case (Some rc)
    then show ?thesis
      using Cons.prems by simp
  next
    case None
    show ?thesis
    proof (cases "elapsed x > of_int limit")
      case True
      then have o: "overdue (of_int limit) x"
        using None by (simp add: overdue_def)
      then have "s' = emit (timeout_event p limit) room s"
        using Cons.prems monitor_overdue [of limit x p room h ts s]
        by (simp del: monitor.simps)
      moreover have "first_overdue (of_int limit) (x # ts) [] x ts"
        using o by (simp add: first_overdue_def)
      ultimately show ?thesis
        by blast
    next
      case False
      then have w: "in_time (of_int limit) x"
        using None by (simp add: in_time_def)
      from monitor_within [OF w Cons.prems] obtain s1
        where "monitor p room limit h ts s1 = Some (TimedOut, s')"
        by auto
      from Cons.IH [OF this] obtain pre t post s0
        where f: "first_overdue (of_int limit) ts pre t post"
          and e: "s' = emit (timeout_event p limit) room s0"
        by blast
      have "first_overdue (of_int limit) (x # ts) (x # pre) t post"
        using f w by (simp add: first_overdue_def)
      then show ?thesis
        using e by blast
    qed
  qed
qed

text \<open>
  At the first turn at which the time is over the loop ends by the timeout, provided the
  mailbox is registered and no write to the child has raised an exception before.
\<close>

lemma monitor_times_out:
  "list_all (in_time (of_int limit)) pre \<Longrightarrow> list_all no_write_error pre \<Longrightarrow>
   overdue (of_int limit) t \<Longrightarrow> input_queues s p \<noteq> None \<Longrightarrow>
     \<exists>s0. monitor p room limit h (pre @ t # post) s =
            Some (TimedOut, emit (timeout_event p limit) room s0)"
proof (induction pre arbitrary: s)
  case Nil
  then have "monitor p room limit h ([] @ t # post) s =
      Some (TimedOut, emit (timeout_event p limit) room s)"
    by (simp add: monitor_overdue del: monitor.simps)
  then show ?case
    by blast
next
  case (Cons x pre)
  from Cons.prems have w: "in_time (of_int limit) x" and n: "no_write_error x"
    by simp_all
  from monitor_within_continues [OF w n Cons.prems(4)] obtain s1
    where s1: "monitor p room limit h (x # pre @ t # post) s =
               monitor p room limit h (pre @ t # post) s1"
      and k: "input_queues s1 p \<noteq> None"
    by blast
  from Cons.prems have "list_all (in_time (of_int limit)) pre" "list_all no_write_error pre"
    by simp_all
  from Cons.IH [OF this Cons.prems(3) k] show ?case
    using s1 by simp
qed

text \<open>The same for the loop of \<^verbatim>\<open>aappp.py\<close>, which a broken pipe ends as well.\<close>

lemma monitor_aappp_overdue:
  "overdue 30 t \<Longrightarrow>
     monitor_aappp p room (t # ts) s = Some (TimedOut_aappp, emit (timeout_event p 30) room s)"
  by (simp add: overdue_def timeout_event_def)

lemma monitor_aappp_within:
  assumes "in_time 30 t" and "monitor_aappp p room (t # ts) s = Some (TimedOut_aappp, s')"
  shows "\<exists>s1. monitor_aappp p room ts s1 = Some (TimedOut_aappp, s')"
  using assms
  by (auto simp: in_time_def Let_def split: option.splits list.splits if_splits write_result.splits)

lemma monitor_aappp_within_continues:
  assumes "in_time 30 t" and "write_result t = Written" and "input_queues s p \<noteq> None"
  shows "\<exists>s1. monitor_aappp p room (t # ts) s = monitor_aappp p room ts s1 \<and>
              input_queues s1 p \<noteq> None"
proof -
  from assms(3) obtain q where q: "input_queues s p = Some q"
    by blast
  show ?thesis
  proof (cases "q @ arrivals t")
    case Nil
    then have "monitor_aappp p room (t # ts) s = monitor_aappp p room ts s"
      using assms(1) q by (simp add: in_time_def)
    then show ?thesis
      using assms(3) by blast
  next
    case (Cons line rest)
    define s1 where "s1 = s\<lparr>input_queues := (input_queues s)(p \<mapsto> rest)\<rparr>"
    have k: "input_queues (emit (input_received p) room s1) p \<noteq> None"
      by (simp add: s1_def emit_def)
    have "monitor_aappp p room (t # ts) s =
          monitor_aappp p room ts (emit (input_received p) room s1)"
      using assms(1,2) q Cons by (simp add: in_time_def s1_def Let_def)
    then show ?thesis
      using k by blast
  qed
qed

lemma monitor_aappp_timed_out:
  "monitor_aappp p room ts s = Some (TimedOut_aappp, s') \<Longrightarrow>
     \<exists>pre t post s0. first_overdue 30 ts pre t post \<and> s' = emit (timeout_event p 30) room s0"
proof (induction ts arbitrary: s)
  case Nil
  then show ?case by simp
next
  case (Cons x ts)
  show ?case
  proof (cases "poll x")
    case (Some rc)
    then show ?thesis
      using Cons.prems by simp
  next
    case None
    show ?thesis
    proof (cases "elapsed x > 30")
      case True
      then have o: "overdue 30 x"
        using None by (simp add: overdue_def)
      then have "s' = emit (timeout_event p 30) room s"
        using Cons.prems monitor_aappp_overdue [of x p room ts s]
        by (simp del: monitor_aappp.simps)
      moreover have "first_overdue 30 (x # ts) [] x ts"
        using o by (simp add: first_overdue_def)
      ultimately show ?thesis
        by blast
    next
      case False
      then have w: "in_time 30 x"
        using None by (simp add: in_time_def)
      from monitor_aappp_within [OF w Cons.prems] obtain s1
        where "monitor_aappp p room ts s1 = Some (TimedOut_aappp, s')"
        by auto
      from Cons.IH [OF this] obtain pre t post s0
        where f: "first_overdue 30 ts pre t post"
          and e: "s' = emit (timeout_event p 30) room s0"
        by blast
      have "first_overdue 30 (x # ts) (x # pre) t post"
        using f w by (simp add: first_overdue_def)
      then show ?thesis
        using e by blast
    qed
  qed
qed

lemma monitor_aappp_times_out:
  "list_all (in_time 30) pre \<Longrightarrow> list_all (\<lambda>u. write_result u = Written) pre \<Longrightarrow>
   overdue 30 t \<Longrightarrow> input_queues s p \<noteq> None \<Longrightarrow>
     \<exists>s0. monitor_aappp p room (pre @ t # post) s =
            Some (TimedOut_aappp, emit (timeout_event p 30) room s0)"
proof (induction pre arbitrary: s)
  case Nil
  then have "monitor_aappp p room ([] @ t # post) s =
      Some (TimedOut_aappp, emit (timeout_event p 30) room s)"
    by (simp add: monitor_aappp_overdue del: monitor_aappp.simps)
  then show ?case
    by blast
next
  case (Cons x pre)
  from Cons.prems have w: "in_time 30 x" and n: "write_result x = Written"
    by simp_all
  from monitor_aappp_within_continues [OF w n Cons.prems(4)] obtain s1
    where s1: "monitor_aappp p room (x # pre @ t # post) s =
               monitor_aappp p room (pre @ t # post) s1"
      and k: "input_queues s1 p \<noteq> None"
    by blast
  from Cons.prems have "list_all (in_time 30) pre" "list_all (\<lambda>u. write_result u = Written) pre"
    by simp_all
  from Cons.IH [OF this Cons.prems(3) k] show ?case
    using s1 by simp
qed

text \<open>What the supervisors publish when the time is over.\<close>

lemma cleanup_emitted: "emitted (snd (cleanup p fs)) = emitted (snd fs)"
  by (simp add: cleanup_eq unregister_all_def)

lemma cleanup_aappp_emitted: "emitted (snd (cleanup_aappp p fs)) = emitted (snd fs)"
  by (simp add: cleanup_aappp_eq unregister_all_def)

lemma launch_keeps_mailbox:
  assumes "launch a e s = Inr (h, fr, s1)"
  shows "input_queues s1 = input_queues s"
  using assms
  by (auto simp: launch_def Let_def emit_def register_process_def stage_datasets_def
      create_entries_def split: sum.splits option.splits if_splits staging.splits)

lemma launch_aappp_keeps_mailbox:
  assumes "launch_aappp a e s = Inr (h, fr, s1)"
  shows "input_queues s1 = input_queues s"
  using assms
  by (auto simp: launch_aappp_def Let_def emit_def register_process_def create_file_def
      split: sum.splits option.splits if_splits)

lemma run_code_with_input_timed_out:
  assumes "launch a e s = Inr (h, fr, s1)"
    and "monitor (arg_process_id a) (arg_session_id a) (arg_timeout_seconds a) h (ticks e) s1 =
           Some (TimedOut, emit (timeout_event (arg_process_id a) (arg_timeout_seconds a))
                             (arg_session_id a) s0)"
  shows "\<exists>r. run_code_with_input a e s = Some r \<and>
           emitted (snd r) =
             emitted s0 @
             [(arg_session_id a, timeout_event (arg_process_id a) (arg_timeout_seconds a)),
              (arg_session_id a,
               code_complete (arg_process_id a) (completion_status (final_poll e)))]"
  using assms
  by (simp add: run_code_with_input_def Let_def observed_returncode_def cleanup_emitted emit_def)

lemma run_code_with_input_aappp_timed_out:
  assumes "launch_aappp a e s = Inr (h, fr, s1)" and "arg_code_needs_input a"
    and "monitor_aappp (arg_process_id a) (arg_session_id a) (ticks_aappp e) s1 =
           Some (TimedOut_aappp, emit (timeout_event (arg_process_id a) 30) (arg_session_id a) s0)"
  shows "\<exists>r es. run_code_with_input_aappp a e s = Some r \<and>
           emitted (snd r) =
             emitted s0 @ (arg_session_id a, timeout_event (arg_process_id a) 30) # es"
  using assms
  by (cases "communicated e")
    (simp_all add: run_code_with_input_aappp_def Let_def cleanup_aappp_emitted emit_def
      emit_collected_def)

lemma run_code_with_input_aappp_waits_30:
  assumes "launch_aappp a e s = Inr (h, fr, s1)" and "\<not> arg_code_needs_input a"
    and "communicated e = CommTimeout"
  shows "\<exists>r. run_code_with_input_aappp a e s = Some r \<and>
           emitted (snd r) = emitted s1 @ [(arg_session_id a, timeout_event (arg_process_id a) 30)]"
  using assms
  by (simp add: run_code_with_input_aappp_def Let_def cleanup_aappp_emitted emit_def
      timeout_event_def)

lemma timeout_seconds_unread:
  "run_code_aappp (data\<lparr>timeout_seconds := w\<rparr>) new_id te s = run_code_aappp data new_id te s"
proof -
  have "feed_target (data\<lparr>timeout_seconds := w\<rparr>) = feed_target data"
    by (simp add: feed_target_def split: option.splits)
  then show ?thesis
    by (simp add: run_code_aappp_def Let_def split: option.splits)
qed

lemma run_code_start:
  assumes "feed_target data = None" and "int_timeout_seconds data = Inr v"
  shows "\<exists>resp a s'. run_code data new_id None s = Inr (resp, Some a, s') \<and>
           arg_timeout_seconds a = max 1 (min v 300) \<and>
           arg_process_id a = new_id \<and>
           map_of resp ''timeout_seconds'' = Some (JInt (max 1 (min v 300)))"
  using assms by (simp add: run_code_def effective_timeout_def Let_def)

text \<open>
  C8, as the code has it. In \<^verbatim>\<open>app.py\<close>, for a start request whose \<^verbatim>\<open>timeout_seconds\<close> is
  absent or a value that \<^verbatim>\<open>int\<close> accepts, the timeout handed to the supervisor, and reported
  in the answer, is that integer clamped into the range from 1 to 300, and 120 when none is
  submitted. The monitoring loop of the supervisor ends by the timeout only at the first
  turn at which the elapsed time exceeds this value, the process having been found running
  at every turn up to it; and at such a turn it does end by the timeout, when the mailbox
  is registered and no write to the child has raised an exception: the supervisor then
  publishes the timeout message with this value, followed by the completion event. In
  \<^verbatim>\<open>aappp.py\<close> the request's \<^verbatim>\<open>timeout_seconds\<close> is not read: the loop of the supervisor ends
  by the timeout in the same way with the fixed value 30, and without input handling the
  supervisor publishes the timeout message for 30 seconds when \<^verbatim>\<open>communicate(timeout=30)\<close>
  raises \<^verbatim>\<open>TimeoutExpired\<close>.
\<close>

theorem timeout_clamped:
  "(feed_target data = None \<and> int_timeout_seconds data = Inr v \<longrightarrow>
      (\<exists>a. started (run_code data new_id None s) = Some a \<and>
            arg_timeout_seconds a = max 1 (min v 300) \<and>
            1 \<le> arg_timeout_seconds a \<and> arg_timeout_seconds a \<le> 300 \<and>
            (timeout_seconds data = None \<longrightarrow> arg_timeout_seconds a = 120) \<and>
            (1 \<le> v \<and> v \<le> 300 \<longrightarrow> arg_timeout_seconds a = v) \<and>
            (\<exists>resp. answer (run_code data new_id None s) = Some resp \<and>
               map_of resp ''timeout_seconds'' = Some (JInt (arg_timeout_seconds a))) \<and>
            (\<forall>e s0 h fr s1 s2.
               launch a e s0 = Inr (h, fr, s1) \<and>
               monitor new_id (arg_session_id a) (arg_timeout_seconds a) h (ticks e) s1 =
                 Some (TimedOut, s2) \<longrightarrow>
               (\<exists>pre t post. first_overdue (of_int (arg_timeout_seconds a)) (ticks e) pre t post)) \<and>
            (\<forall>e s0 h fr s1 pre t post.
               launch a e s0 = Inr (h, fr, s1) \<and> input_queues s0 new_id \<noteq> None \<and>
               first_overdue (of_int (arg_timeout_seconds a)) (ticks e) pre t post \<and>
               list_all no_write_error pre \<longrightarrow>
               (\<exists>r es. run_code_with_input a e s0 = Some r \<and>
                  emitted (snd r) =
                    es @ [(arg_session_id a, timeout_event new_id (arg_timeout_seconds a)),
                          (arg_session_id a,
                           code_complete new_id (completion_status (final_poll e)))])))) \<and>
   run_code_aappp (data\<lparr>timeout_seconds := w\<rparr>) new_id te s = run_code_aappp data new_id te s \<and>
   (\<forall>a e s0 h fr s1 s2.
      launch_aappp a e s0 = Inr (h, fr, s1) \<and>
      monitor_aappp (arg_process_id a) (arg_session_id a) (ticks_aappp e) s1 =
        Some (TimedOut_aappp, s2) \<longrightarrow>
      (\<exists>pre t post. first_overdue 30 (ticks_aappp e) pre t post)) \<and>
   (\<forall>a e s0 h fr s1 pre t post.
      launch_aappp a e s0 = Inr (h, fr, s1) \<and> arg_code_needs_input a \<and>
      input_queues s0 (arg_process_id a) \<noteq> None \<and>
      first_overdue 30 (ticks_aappp e) pre t post \<and>
      list_all (\<lambda>u. write_result u = Written) pre \<longrightarrow>
      (\<exists>r es es'. run_code_with_input_aappp a e s0 = Some r \<and>
         emitted (snd r) = es @ (arg_session_id a, timeout_event (arg_process_id a) 30) # es')) \<and>
   (\<forall>a e s0 h fr s1.
      launch_aappp a e s0 = Inr (h, fr, s1) \<and> \<not> arg_code_needs_input a \<and>
      communicated e = CommTimeout \<longrightarrow>
      (\<exists>r es. run_code_with_input_aappp a e s0 = Some r \<and>
         emitted (snd r) = es @ [(arg_session_id a, timeout_event (arg_process_id a) 30)]))"
proof (intro conjI impI allI)
  assume h: "feed_target data = None \<and> int_timeout_seconds data = Inr v"
  from h have h1: "feed_target data = None" and h2: "int_timeout_seconds data = Inr v"
    by simp_all
  from run_code_start [OF h1 h2, of new_id s] obtain resp a s' where
    r: "run_code data new_id None s = Inr (resp, Some a, s')" and
    t: "arg_timeout_seconds a = max 1 (min v 300)" and
    p: "arg_process_id a = new_id" and
    m: "map_of resp ''timeout_seconds'' = Some (JInt (max 1 (min v 300)))"
    by blast
  have d: "timeout_seconds data = None \<longrightarrow> arg_timeout_seconds a = 120"
    using h t by (auto simp: int_timeout_seconds_def)
  have sound: "\<forall>e s0 h fr s1 s2.
      launch a e s0 = Inr (h, fr, s1) \<and>
      monitor new_id (arg_session_id a) (arg_timeout_seconds a) h (ticks e) s1 =
        Some (TimedOut, s2) \<longrightarrow>
      (\<exists>pre t post. first_overdue (of_int (arg_timeout_seconds a)) (ticks e) pre t post)"
    using monitor_timed_out by blast
  have complete: "\<forall>e s0 h fr s1 pre t post.
      launch a e s0 = Inr (h, fr, s1) \<and> input_queues s0 new_id \<noteq> None \<and>
      first_overdue (of_int (arg_timeout_seconds a)) (ticks e) pre t post \<and>
      list_all no_write_error pre \<longrightarrow>
      (\<exists>r es. run_code_with_input a e s0 = Some r \<and>
         emitted (snd r) =
           es @ [(arg_session_id a, timeout_event new_id (arg_timeout_seconds a)),
                 (arg_session_id a, code_complete new_id (completion_status (final_poll e)))])"
  proof (intro allI impI)
    fix e s0 h fr s1 pre t post
    assume c: "launch a e s0 = Inr (h, fr, s1) \<and> input_queues s0 new_id \<noteq> None \<and>
      first_overdue (of_int (arg_timeout_seconds a)) (ticks e) pre t post \<and>
      list_all no_write_error pre"
    then have l: "launch a e s0 = Inr (h, fr, s1)"
      by simp
    have q: "input_queues s1 (arg_process_id a) \<noteq> None"
      using c launch_keeps_mailbox [OF l] p by simp
    from c have "list_all (in_time (of_int (arg_timeout_seconds a))) pre"
      and "list_all no_write_error pre" and "overdue (of_int (arg_timeout_seconds a)) t"
      and ts: "ticks e = pre @ t # post"
      by (simp_all add: first_overdue_def)
    from monitor_times_out [OF this(1,2,3) q] obtain s2 where
      "monitor (arg_process_id a) (arg_session_id a) (arg_timeout_seconds a) h (ticks e) s1 =
         Some (TimedOut, emit (timeout_event (arg_process_id a) (arg_timeout_seconds a))
                            (arg_session_id a) s2)"
      unfolding ts by blast
    from run_code_with_input_timed_out [OF l this]
    show "\<exists>r es. run_code_with_input a e s0 = Some r \<and>
         emitted (snd r) =
           es @ [(arg_session_id a, timeout_event new_id (arg_timeout_seconds a)),
                 (arg_session_id a, code_complete new_id (completion_status (final_poll e)))]"
      using p by auto
  qed
  have st: "started (run_code data new_id None s) = Some a"
    using r by (simp add: started_def)
  have an: "\<exists>resp. answer (run_code data new_id None s) = Some resp \<and>
      map_of resp ''timeout_seconds'' = Some (JInt (arg_timeout_seconds a))"
    using r t m by (simp add: answer_def)
  have lo: "1 \<le> arg_timeout_seconds a" and hi: "arg_timeout_seconds a \<le> 300"
    and id: "1 \<le> v \<and> v \<le> 300 \<longrightarrow> arg_timeout_seconds a = v"
    using t by auto
  show "\<exists>a. started (run_code data new_id None s) = Some a \<and>
            arg_timeout_seconds a = max 1 (min v 300) \<and>
            1 \<le> arg_timeout_seconds a \<and> arg_timeout_seconds a \<le> 300 \<and>
            (timeout_seconds data = None \<longrightarrow> arg_timeout_seconds a = 120) \<and>
            (1 \<le> v \<and> v \<le> 300 \<longrightarrow> arg_timeout_seconds a = v) \<and>
            (\<exists>resp. answer (run_code data new_id None s) = Some resp \<and>
               map_of resp ''timeout_seconds'' = Some (JInt (arg_timeout_seconds a))) \<and>
            (\<forall>e s0 h fr s1 s2.
               launch a e s0 = Inr (h, fr, s1) \<and>
               monitor new_id (arg_session_id a) (arg_timeout_seconds a) h (ticks e) s1 =
                 Some (TimedOut, s2) \<longrightarrow>
               (\<exists>pre t post. first_overdue (of_int (arg_timeout_seconds a)) (ticks e) pre t post)) \<and>
            (\<forall>e s0 h fr s1 pre t post.
               launch a e s0 = Inr (h, fr, s1) \<and> input_queues s0 new_id \<noteq> None \<and>
               first_overdue (of_int (arg_timeout_seconds a)) (ticks e) pre t post \<and>
               list_all no_write_error pre \<longrightarrow>
               (\<exists>r es. run_code_with_input a e s0 = Some r \<and>
                  emitted (snd r) =
                    es @ [(arg_session_id a, timeout_event new_id (arg_timeout_seconds a)),
                          (arg_session_id a,
                           code_complete new_id (completion_status (final_poll e)))]))"
    by (rule exI [of _ a]) (intro conjI st t lo hi d id an sound complete)
next
  show "run_code_aappp (data\<lparr>timeout_seconds := w\<rparr>) new_id te s = run_code_aappp data new_id te s"
    by (rule timeout_seconds_unread)
next
  fix a :: thread_args_aappp and e s0 h fr s1 s2
  assume "launch_aappp a e s0 = Inr (h, fr, s1) \<and>
      monitor_aappp (arg_process_id a) (arg_session_id a) (ticks_aappp e) s1 =
        Some (TimedOut_aappp, s2)"
  then show "\<exists>pre t post. first_overdue 30 (ticks_aappp e) pre t post"
    using monitor_aappp_timed_out by blast
next
  fix a :: thread_args_aappp and e s0 h fr s1 pre t post
  assume c: "launch_aappp a e s0 = Inr (h, fr, s1) \<and> arg_code_needs_input a \<and>
      input_queues s0 (arg_process_id a) \<noteq> None \<and>
      first_overdue 30 (ticks_aappp e) pre t post \<and>
      list_all (\<lambda>u. write_result u = Written) pre"
  then have l: "launch_aappp a e s0 = Inr (h, fr, s1)" and n: "arg_code_needs_input a"
    by simp_all
  have q: "input_queues s1 (arg_process_id a) \<noteq> None"
    using c launch_aappp_keeps_mailbox [OF l] by simp
  from c have "list_all (in_time 30) pre"
    and "list_all (\<lambda>u. write_result u = Written) pre" and "overdue 30 t"
    and ts: "ticks_aappp e = pre @ t # post"
    by (simp_all add: first_overdue_def)
  from monitor_aappp_times_out [OF this(1,2,3) q] obtain s2 where
    "monitor_aappp (arg_process_id a) (arg_session_id a) (ticks_aappp e) s1 =
       Some (TimedOut_aappp, emit (timeout_event (arg_process_id a) 30) (arg_session_id a) s2)"
    unfolding ts by blast
  from run_code_with_input_aappp_timed_out [OF l n this]
  show "\<exists>r es es'. run_code_with_input_aappp a e s0 = Some r \<and>
         emitted (snd r) = es @ (arg_session_id a, timeout_event (arg_process_id a) 30) # es'"
    by blast
next
  fix a :: thread_args_aappp and e s0 h fr s1
  assume c: "launch_aappp a e s0 = Inr (h, fr, s1) \<and> \<not> arg_code_needs_input a \<and>
      communicated e = CommTimeout"
  from run_code_with_input_aappp_waits_30 [of a e s0 h fr s1] c
  show "\<exists>r es. run_code_with_input_aappp a e s0 = Some r \<and>
         emitted (snd r) = es @ [(arg_session_id a, timeout_event (arg_process_id a) 30)]"
    by blast
qed

text \<open>
  The arguments that the start handler hands to the supervisor for \<open>start_request\<close>, and a
  host without Docker on which the child is running after 60 seconds and still after 201.
\<close>

definition requested_args :: thread_args where
  "requested_args =
     \<lparr>arg_code = ''x = input()'', arg_process_id = ''p1'', arg_session_id = Some ''room'',
      arg_code_needs_input = True, arg_timeout_seconds = 200, arg_use_docker = False,
      arg_docker_packages = []\<rparr>"

definition patient_env :: env where
  "patient_env =
     \<lparr>mkdtemp = Inr ''/tmp/siren_exec_1'', write_source = None, datasets = NoDatasets,
      docker_found = False, sys_executable = ''python'', popen_error = None,
      ticks = [alive_tick 60, alive_tick 201], final_poll = Some (- 9)\<rparr>"

lemma code_needs_input_example: "code_needs_input ''x = input()''"
  by (simp add: code_needs_input_def strip_strings_and_comments_def re_sub_def
      match_triple_def match_quoted_def match_comment_def match_delimited_def
      match_input_def match_sys_stdin_def is_word_def is_space_def dq_def sq_def newline_def
      Let_def)

lemma run_code_start_request:
  "run_code start_request ''p1'' None empty_state =
     Inr ([(''status'', JStr ''started''),
           (''process_id'', JStr ''p1''),
           (''needs_input'', JBool True),
           (''message'', JStr ''Code execution started successfully''),
           (''timeout_seconds'', JInt 200),
           (''use_docker'', JBool False)],
          Some requested_args, waiting_state)"
  using code_needs_input_example
  by (simp add: run_code_def int_timeout_seconds_def effective_timeout_def feed_target_def
      Let_def start_request_def empty_state_def waiting_state_def requested_args_def
      register_queue_def register_flag_def)

theorem timeout_clamped_witness:
  "feed_target start_request = None \<and> int_timeout_seconds start_request = Inr 200 \<and>
   started (run_code start_request ''p1'' None empty_state) = Some requested_args \<and>
   arg_timeout_seconds requested_args = 200 \<and>
   map_option arg_timeout_seconds
     (started (run_code (start_request\<lparr>timeout_seconds := Some (Inr 1000)\<rparr>) ''p1'' None
        empty_state)) = Some 300 \<and>
   map_option arg_timeout_seconds
     (started (run_code (start_request\<lparr>timeout_seconds := None\<rparr>) ''p1'' None empty_state)) =
     Some 120 \<and>
   first_overdue 200 (ticks patient_env) [alive_tick 60] (alive_tick 201) [] \<and>
   (\<exists>r es. run_code_with_input requested_args patient_env waiting_state = Some r \<and>
      emitted (snd r) =
        es @ [(Some ''room'', timeout_event ''p1'' 200),
              (Some ''room'', code_complete ''p1'' ''finished'')])"
proof -
  have f: "feed_target start_request = None"
    "feed_target (start_request\<lparr>timeout_seconds := Some (Inr 1000)\<rparr>) = None"
    "feed_target (start_request\<lparr>timeout_seconds := None\<rparr>) = None"
    by (simp_all add: feed_target_def start_request_def)
  have v: "int_timeout_seconds start_request = Inr 200"
    "int_timeout_seconds (start_request\<lparr>timeout_seconds := Some (Inr 1000)\<rparr>) = Inr 1000"
    "int_timeout_seconds (start_request\<lparr>timeout_seconds := None\<rparr>) = Inr 120"
    by (simp_all add: int_timeout_seconds_def start_request_def)
  have st: "started (run_code start_request ''p1'' None empty_state) = Some requested_args"
    by (simp add: run_code_start_request started_def)
  have t: "arg_timeout_seconds requested_args = 200" "arg_session_id requested_args = Some ''room''"
    by (simp_all add: requested_args_def)
  have o: "first_overdue 200 (ticks patient_env) [alive_tick 60] (alive_tick 201) []"
    by (simp add: first_overdue_def patient_env_def in_time_def overdue_def alive_tick_def)
  have n: "list_all no_write_error [alive_tick 60]"
    by (simp add: no_write_error_def alive_tick_def)
  have q: "input_queues waiting_state ''p1'' \<noteq> None"
    by (simp add: waiting_state_def)
  have c: "completion_status (final_poll patient_env) = ''finished''"
    by (simp add: completion_status_def patient_env_def)
  obtain h fr s1 where l: "launch requested_args patient_env waiting_state = Inr (h, fr, s1)"
    by (simp add: launch_def requested_args_def patient_env_def Let_def)
  from timeout_clamped [where data = start_request and v = 200 and new_id = "''p1''"
      and s = empty_state, THEN conjunct1, THEN mp, OF conjI [OF f(1) v(1)]]
  have 1: "\<exists>r es. run_code_with_input requested_args patient_env waiting_state = Some r \<and>
      emitted (snd r) =
        es @ [(Some ''room'', timeout_event ''p1'' 200),
              (Some ''room'', code_complete ''p1'' ''finished'')]"
  proof (elim exE conjE)
    fix a
    assume a: "started (run_code start_request ''p1'' None empty_state) = Some a"
      and run: "\<forall>e s0 h fr s1 pre t post.
         launch a e s0 = Inr (h, fr, s1) \<and> input_queues s0 ''p1'' \<noteq> None \<and>
         first_overdue (of_int (arg_timeout_seconds a)) (ticks e) pre t post \<and>
         list_all no_write_error pre \<longrightarrow>
         (\<exists>r es. run_code_with_input a e s0 = Some r \<and>
            emitted (snd r) =
              es @ [(arg_session_id a, timeout_event ''p1'' (arg_timeout_seconds a)),
                    (arg_session_id a, code_complete ''p1'' (completion_status (final_poll e)))])"
    have a': "a = requested_args"
      using a st by simp
    have "launch a patient_env waiting_state = Inr (h, fr, s1) \<and>
        input_queues waiting_state ''p1'' \<noteq> None \<and>
        first_overdue (of_int (arg_timeout_seconds a)) (ticks patient_env)
          [alive_tick 60] (alive_tick 201) [] \<and>
        list_all no_write_error [alive_tick 60]"
      using a' l q o n t by simp
    from run [rule_format, OF this] show ?thesis
      using a' t c by simp
  qed
  from timeout_clamped [where data = "start_request\<lparr>timeout_seconds := Some (Inr 1000)\<rparr>"
      and v = 1000 and new_id = "''p1''" and s = empty_state, THEN conjunct1, THEN mp,
      OF conjI [OF f(2) v(2)]]
  have 2: "map_option arg_timeout_seconds
     (started (run_code (start_request\<lparr>timeout_seconds := Some (Inr 1000)\<rparr>) ''p1'' None
        empty_state)) = Some 300"
  proof (elim exE conjE)
    fix a
    assume "started (run_code (start_request\<lparr>timeout_seconds := Some (Inr 1000)\<rparr>) ''p1'' None
        empty_state) = Some a"
      and "arg_timeout_seconds a = max 1 (min 1000 300)"
    then show ?thesis
      by simp
  qed
  from timeout_clamped [where data = "start_request\<lparr>timeout_seconds := None\<rparr>"
      and v = 120 and new_id = "''p1''" and s = empty_state, THEN conjunct1, THEN mp,
      OF conjI [OF f(3) v(3)]]
  have 3: "map_option arg_timeout_seconds
     (started (run_code (start_request\<lparr>timeout_seconds := None\<rparr>) ''p1'' None empty_state)) =
     Some 120"
  proof (elim exE conjE)
    fix a
    assume "started (run_code (start_request\<lparr>timeout_seconds := None\<rparr>) ''p1'' None empty_state) =
        Some a"
      and "arg_timeout_seconds a = max 1 (min 120 300)"
    then show ?thesis
      by simp
  qed
  show ?thesis
    by (intro conjI f(1) v(1) st t(1) 1 2 3 o)
qed

text \<open>
  The claim C8 as stated fails on \<^verbatim>\<open>aappp.py\<close>: a start request that asks for 200 seconds
  is accepted, and the execution is ended by the timeout branch after 31 seconds; the
  message names 30 seconds.
\<close>

theorem timeout_clamped_counterexample:
  "timeout_seconds start_request = Some (Inr 200) \<and>
   fst (snd (run_code_aappp start_request ''p1'' None empty_state)) = Some started_args_aappp \<and>
   emissions
     (run_code_with_input_aappp started_args_aappp slow_env_aappp
        (snd (snd (run_code_aappp start_request ''p1'' None empty_state)))) =
     Some [(Some ''room'', code_output ''p1'' Started ''system''),
           (Some ''room'', code_output ''p1'' (TimedOutAfter 30) ''error''),
           (Some ''room'', code_complete ''p1'' ''completed'')]"
  by (simp add: start_request_def started_args_aappp_def slow_env_aappp_def alive_tick_def
      empty_state_def emissions_def run_code_aappp_def feed_target_def
      code_needs_input_aappp_def register_queue_def register_flag_def
      run_code_with_input_aappp_def launch_aappp_def create_file_def no_frame_def
      popen_args_aappp_def register_process_def emit_def cleanup_aappp_def killed_def
      after_loop_aappp_def
      unregister_process_def unregister_queue_def unregister_flag_def remove_tempfile_def
      path_exists_def unlink_def Let_def)

subsection \<open>The three registries\<close>

text \<open>
  An id is \<open>mapped\<close> when all three dictionaries hold it, \<open>unmapped\<close> when none does, and
  \<open>linked\<close> when its process handle, if registered, comes with a mailbox and a flag.
\<close>

definition mapped :: "pid \<Rightarrow> state \<Rightarrow> bool" where
  "mapped p s =
     (running_processes s p \<noteq> None \<and> input_queues s p \<noteq> None \<and> process_needs_input s p \<noteq> None)"

definition unmapped :: "pid \<Rightarrow> state \<Rightarrow> bool" where
  "unmapped p s =
     (running_processes s p = None \<and> input_queues s p = None \<and> process_needs_input s p = None)"

definition linked :: "pid \<Rightarrow> state \<Rightarrow> bool" where
  "linked p s =
     (running_processes s p = None \<or>
      (input_queues s p \<noteq> None \<and> process_needs_input s p \<noteq> None))"

lemma launch_registries:
  assumes "launch a e s = Inr (h, fr, s1)"
  shows "running_processes s1 = (running_processes s)(arg_process_id a \<mapsto> h) \<and>
         input_queues s1 = input_queues s \<and>
         process_needs_input s1 = process_needs_input s"
  using assms
  by (auto simp: launch_def Let_def emit_def register_process_def stage_datasets_def
      create_entries_def split: sum.splits option.splits if_splits staging.splits)

lemma launch_failed_registries:
  assumes "launch a e s = Inl (err, fr, s1)"
  shows "running_processes s1 = running_processes s \<and>
         input_queues s1 = input_queues s \<and>
         process_needs_input s1 = process_needs_input s"
  using assms
  by (auto simp: launch_def Let_def emit_def register_process_def stage_datasets_def
      create_entries_def split: sum.splits option.splits if_splits staging.splits)

lemma monitor_registries:
  "monitor p room t h ts s = Some (ending, s') \<Longrightarrow>
     running_processes s' = running_processes s \<and>
     process_needs_input s' = process_needs_input s \<and>
     (\<forall>q. (input_queues s' q = None) = (input_queues s q = None))"
proof (induction ts arbitrary: s)
  case Nil
  then show ?case by simp
next
  case (Cons x ts)
  show ?case
  proof (cases "poll x")
    case (Some rc)
    then show ?thesis using Cons.prems by auto
  next
    case None
    note alive = this
    show ?thesis
    proof (cases "elapsed x > of_int t")
      case True
      then show ?thesis using Cons.prems alive by (auto simp: emit_def)
    next
      case False
      note in_time = this
      show ?thesis
      proof (cases "input_queues s p")
        case None
        then show ?thesis using Cons.prems alive in_time by auto
      next
        case (Some q)
        note queue = this
        show ?thesis
        proof (cases "q @ arrivals x")
          case Nil
          then have "monitor p room t h ts s = Some (ending, s')"
            using Cons.prems alive in_time queue by simp
          then show ?thesis by (rule Cons.IH)
        next
          case (Cons line rest)
          define s1 where "s1 = s\<lparr>input_queues := (input_queues s)(p \<mapsto> rest)\<rparr>"
          have s1: "running_processes s1 = running_processes s \<and>
              process_needs_input s1 = process_needs_input s \<and>
              (\<forall>q. (input_queues s1 q = None) = (input_queues s q = None))"
            using queue by (simp add: s1_def)
          have e1: "running_processes (emit (input_received p) room s1) = running_processes s \<and>
              process_needs_input (emit (input_received p) room s1) = process_needs_input s \<and>
              (\<forall>q. (input_queues (emit (input_received p) room s1) q = None) =
                    (input_queues s q = None))"
            using s1 by (simp add: emit_def)
          have step: "monitor p room t h (x # ts) s =
              (if stdin h = PIPE
               then (case write_result x of
                       Written \<Rightarrow> monitor p room t h ts (emit (input_received p) room s1)
                     | BrokenPipe \<Rightarrow> monitor p room t h ts s1
                     | WriteError err \<Rightarrow> Some (Raised err, s1))
               else monitor p room t h ts s1)"
            using alive in_time queue Cons
            by (simp add: s1_def Let_def cong: write_result.case_cong)
          show ?thesis
          proof (cases "stdin h = PIPE")
            case False
            then have "monitor p room t h ts s1 = Some (ending, s')"
              using Cons.prems step by simp
            from Cons.IH [OF this] s1 show ?thesis by simp
          next
            case True
            show ?thesis
            proof (cases "write_result x")
              case Written
              then have "monitor p room t h ts (emit (input_received p) room s1) = Some (ending, s')"
                using Cons.prems step True by simp
              from Cons.IH [OF this] e1 show ?thesis by simp
            next
              case BrokenPipe
              then have "monitor p room t h ts s1 = Some (ending, s')"
                using Cons.prems step True by simp
              from Cons.IH [OF this] s1 show ?thesis by simp
            next
              case (WriteError err)
              then have "s' = s1"
                using Cons.prems step True by simp
              then show ?thesis using s1 by simp
            qed
          qed
        qed
      qed
    qed
  qed
qed

lemma cleanup_registries:
  "running_processes (snd (cleanup p fs)) = (running_processes (snd fs))(p := None) \<and>
   input_queues (snd (cleanup p fs)) = (input_queues (snd fs))(p := None) \<and>
   process_needs_input (snd (cleanup p fs)) = (process_needs_input (snd fs))(p := None)"
  by (simp add: cleanup_eq unregister_all_def)

lemma cleanup_unmapped: "unmapped p (snd (cleanup p fs))"
  by (simp add: unmapped_def cleanup_registries)

lemma cleanup_linked: "linked q (snd fs) \<Longrightarrow> linked q (snd (cleanup p fs))"
  by (auto simp: linked_def cleanup_registries)

text \<open>Every run of the supervisor ends with the cleanup for its own id.\<close>

lemma run_code_with_input_cleanup:
  assumes "run_code_with_input a e s = Some r"
  shows "\<exists>fr0 s0. r = cleanup (arg_process_id a) (fr0, s0) \<and>
           (\<forall>q. q \<noteq> arg_process_id a \<longrightarrow>
              running_processes s0 q = running_processes s q \<and>
              (input_queues s0 q = None) = (input_queues s q = None) \<and>
              process_needs_input s0 q = process_needs_input s q)"
proof (cases "launch a e s")
  case (Inl x)
  obtain err fr s1 where x: "x = (err, fr, s1)"
    by (cases x)
  define s0 where
    "s0 = emit (code_output (arg_process_id a) (ExecutionError err) ''error'') (arg_session_id a) s1"
  have "r = cleanup (arg_process_id a) (fr, s0)"
    using assms Inl x by (simp add: run_code_with_input_def Let_def s0_def)
  moreover have "running_processes s0 = running_processes s \<and>
      input_queues s0 = input_queues s \<and> process_needs_input s0 = process_needs_input s"
    using launch_failed_registries [of a e s err fr s1] Inl x by (simp add: s0_def emit_def)
  ultimately have "r = cleanup (arg_process_id a) (fr, s0) \<and>
      (\<forall>q. q \<noteq> arg_process_id a \<longrightarrow>
         running_processes s0 q = running_processes s q \<and>
         (input_queues s0 q = None) = (input_queues s q = None) \<and>
         process_needs_input s0 q = process_needs_input s q)"
    by simp
  then show ?thesis
    by blast
next
  case (Inr y)
  obtain h fr s1 where y: "y = (h, fr, s1)"
    by (cases y)
  have l: "launch a e s = Inr (h, fr, s1)"
    using Inr y by simp
  note r1 = launch_registries [OF l]
  obtain ending s2 where
    m: "monitor (arg_process_id a) (arg_session_id a) (arg_timeout_seconds a) h (ticks e) s1 =
        Some (ending, s2)"
    using assms l by (auto simp: run_code_with_input_def Let_def split: option.splits)
  note r2 = monitor_registries [OF m]
  have "\<exists>fr0 ev. r = cleanup (arg_process_id a) (fr0, emit ev (arg_session_id a) s2)"
    using assms l m
    by (cases ending) (auto simp: run_code_with_input_def Let_def)
  then obtain fr0 ev where "r = cleanup (arg_process_id a) (fr0, emit ev (arg_session_id a) s2)"
    by blast
  moreover have "\<forall>q. q \<noteq> arg_process_id a \<longrightarrow>
      running_processes (emit ev (arg_session_id a) s2) q = running_processes s q \<and>
      (input_queues (emit ev (arg_session_id a) s2) q = None) = (input_queues s q = None) \<and>
      process_needs_input (emit ev (arg_session_id a) s2) q = process_needs_input s q"
    using r1 r2 by (simp add: emit_def)
  ultimately show ?thesis
    by blast
qed

lemma run_code_registries:
  "running_processes (state_after s (run_code data p err s)) = running_processes s \<and>
   (\<forall>q. input_queues s q \<noteq> None \<longrightarrow> input_queues (state_after s (run_code data p err s)) q \<noteq> None) \<and>
   (\<forall>q. process_needs_input s q \<noteq> None \<longrightarrow>
      process_needs_input (state_after s (run_code data p err s)) q \<noteq> None)"
  by (simp add: run_code_def state_after_def Let_def put_line_def register_queue_def
      register_flag_def split: sum.splits option.splits)

lemma provide_input_registries:
  "running_processes (snd (provide_input data s)) = running_processes s \<and>
   (\<forall>q. input_queues s q \<noteq> None \<longrightarrow> input_queues (snd (provide_input data s)) q \<noteq> None) \<and>
   process_needs_input (snd (provide_input data s)) = process_needs_input s"
  by (simp add: provide_input_def put_line_def split: option.splits)

text \<open>
  C3, as the code has it. The mailbox and the flag of a new id are registered by the start
  handler, the mailbox first; the process handle is registered later, by the supervisor,
  once the child is launched; and the cleanup removes the handle, then the mailbox, then
  the flag. So an id with a registered handle always has a mailbox and a flag: every
  handler and every step of the supervisor keeps this for every id, the launch leaves the
  supervisor's id mapped to all three, and after the supervisor has returned its id is
  mapped to none of them.
\<close>

theorem handle_has_mailbox_and_flag:
  assumes "linked q s"
  shows "linked q (register_queue p s) \<and>
         linked q (state_after s (run_code data p err s)) \<and>
         (feed_target data = None \<and> int_timeout_seconds data = Inr v \<longrightarrow>
            input_queues (state_after s (run_code data p err s)) p \<noteq> None \<and>
            process_needs_input (state_after s (run_code data p err s)) p \<noteq> None) \<and>
         linked q (snd (provide_input data s)) \<and>
         (launch a e s = Inr (h, fr, s1) \<and> input_queues s (arg_process_id a) \<noteq> None \<and>
          process_needs_input s (arg_process_id a) \<noteq> None \<longrightarrow>
            linked q s1 \<and> mapped (arg_process_id a) s1) \<and>
         (monitor p room t h' ts s = Some (ending, s2) \<longrightarrow> linked q s2) \<and>
         linked q (unregister_process p s) \<and>
         linked q (unregister_queue p (unregister_process p s)) \<and>
         linked q (unregister_flag p (unregister_queue p (unregister_process p s))) \<and>
         linked q (snd (cleanup p (fr', s))) \<and>
         unmapped p (snd (cleanup p (fr', s))) \<and>
         (run_code_with_input a e s = Some r \<longrightarrow>
            linked q (snd r) \<and> unmapped (arg_process_id a) (snd r))"
proof (intro conjI impI)
  show "linked q (register_queue p s)"
    using assms by (auto simp: linked_def register_queue_def)
  show "linked q (state_after s (run_code data p err s))"
    using assms run_code_registries [where s = s and data = data and p = p and err = err] by (auto simp: linked_def)
  show "linked q (snd (provide_input data s))"
    using assms provide_input_registries [of data s] by (auto simp: linked_def)
  show "linked q (unregister_process p s)"
    using assms by (auto simp: linked_def unregister_process_def)
  show "linked q (unregister_queue p (unregister_process p s))"
    using assms by (auto simp: linked_def unregister_process_def unregister_queue_def)
  show "linked q (unregister_flag p (unregister_queue p (unregister_process p s)))"
    using assms
    by (auto simp: linked_def unregister_process_def unregister_queue_def unregister_flag_def)
  show "linked q (snd (cleanup p (fr', s)))"
    using assms cleanup_linked [of q "(fr', s)" p] by simp
  show "unmapped p (snd (cleanup p (fr', s)))"
    by (rule cleanup_unmapped)
next
  assume "feed_target data = None \<and> int_timeout_seconds data = Inr v"
  then show "input_queues (state_after s (run_code data p err s)) p \<noteq> None"
    by (simp add: run_code_def state_after_def Let_def register_queue_def register_flag_def
        split: option.splits)
next
  assume "feed_target data = None \<and> int_timeout_seconds data = Inr v"
  then show "process_needs_input (state_after s (run_code data p err s)) p \<noteq> None"
    by (simp add: run_code_def state_after_def Let_def register_queue_def register_flag_def
        split: option.splits)
next
  assume l: "launch a e s = Inr (h, fr, s1) \<and> input_queues s (arg_process_id a) \<noteq> None \<and>
      process_needs_input s (arg_process_id a) \<noteq> None"
  then show "linked q s1"
    using assms launch_registries [of a e s h fr s1] by (auto simp: linked_def)
  from l show "mapped (arg_process_id a) s1"
    using launch_registries [of a e s h fr s1] by (auto simp: mapped_def)
next
  assume "monitor p room t h' ts s = Some (ending, s2)"
  from monitor_registries [OF this] show "linked q s2"
    using assms by (simp add: linked_def)
next
  assume r: "run_code_with_input a e s = Some r"
  from run_code_with_input_cleanup [OF r] obtain fr0 s0 where
    c: "r = cleanup (arg_process_id a) (fr0, s0)" and
    o: "\<forall>q. q \<noteq> arg_process_id a \<longrightarrow>
              running_processes s0 q = running_processes s q \<and>
              (input_queues s0 q = None) = (input_queues s q = None) \<and>
              process_needs_input s0 q = process_needs_input s q"
    by blast
  show "unmapped (arg_process_id a) (snd r)"
    unfolding c by (rule cleanup_unmapped)
  show "linked q (snd r)"
  proof (cases "q = arg_process_id a")
    case True
    then show ?thesis
      unfolding c by (simp add: linked_def cleanup_registries)
  next
    case False
    then show ?thesis
      using o assms unfolding c by (simp add: linked_def cleanup_registries)
  qed
qed

theorem handle_has_mailbox_and_flag_witness:
  "linked ''p1'' empty_state \<and>
   feed_target start_request = None \<and> int_timeout_seconds start_request = Inr 200 \<and>
   state_after empty_state (run_code start_request ''p1'' None empty_state) = waiting_state \<and>
   input_queues waiting_state ''p1'' \<noteq> None \<and> process_needs_input waiting_state ''p1'' \<noteq> None \<and>
   linked ''p1'' waiting_state \<and>
   (\<exists>h fr s1. launch requested_args patient_env waiting_state = Inr (h, fr, s1) \<and>
       mapped ''p1'' s1) \<and>
   (\<exists>s2. monitor ''p1'' (Some ''room'') 200 (popen_args_aappp ''python'' ''f'' True)
            (ticks patient_env) waiting_state = Some (TimedOut, s2) \<and> linked ''p1'' s2) \<and>
   (\<exists>r. run_code_with_input requested_args patient_env waiting_state = Some r \<and>
       unmapped ''p1'' (snd r))"
proof -
  have k0: "linked ''p1'' empty_state"
    by (simp add: linked_def empty_state_def)
  have f: "feed_target start_request = None"
    by (simp add: feed_target_def start_request_def)
  have v: "int_timeout_seconds start_request = Inr 200"
    by (simp add: int_timeout_seconds_def start_request_def)
  have s: "state_after empty_state (run_code start_request ''p1'' None empty_state) = waiting_state"
    by (simp add: run_code_start_request state_after_def)
  from handle_has_mailbox_and_flag [OF k0, where p = "''p1''" and data = start_request
      and err = None and v = 200] f v s
  have k: "linked ''p1'' waiting_state" and i: "input_queues waiting_state ''p1'' \<noteq> None"
    "process_needs_input waiting_state ''p1'' \<noteq> None"
    by simp_all
  obtain h fr s1 where l: "launch requested_args patient_env waiting_state = Inr (h, fr, s1)"
    by (simp add: launch_def requested_args_def patient_env_def Let_def)
  obtain s2 where m: "monitor ''p1'' (Some ''room'') 200 (popen_args_aappp ''python'' ''f'' True)
            (ticks patient_env) waiting_state = Some (TimedOut, s2)"
    by (simp add: patient_env_def alive_tick_def waiting_state_def)
  obtain r where r: "run_code_with_input requested_args patient_env waiting_state = Some r"
    by (simp add: run_code_with_input_def launch_def Let_def requested_args_def patient_env_def
        alive_tick_def waiting_state_def stage_datasets_def create_entries_def no_frame_def
        popen_args_def register_process_def emit_def observed_returncode_def)
  have p: "arg_process_id requested_args = ''p1''"
    by (simp add: requested_args_def)
  from handle_has_mailbox_and_flag [OF k, where p = "''p1''" and a = requested_args
      and e = patient_env and h = h and fr = fr and ?s1.0 = s1 and room = "Some ''room''"
      and t = 200 and h' = "popen_args_aappp ''python'' ''f'' True" and ts = "ticks patient_env"
      and ending = TimedOut and ?s2.0 = s2 and r = r]
  have "mapped ''p1'' s1 \<and> linked ''p1'' s2 \<and> unmapped ''p1'' (snd r)"
    using l i m r p by simp
  then show ?thesis
    using k0 k f v s i l m r by blast
qed

text \<open>
  The claim C3 as stated fails at the point where the start handler has returned and the
  supervisor has not yet launched the child: the id is mapped to a mailbox and a flag and
  to no process handle.
\<close>

theorem handle_has_mailbox_and_flag_counterexample:
  "input_queues (state_after empty_state (run_code start_request ''p1'' None empty_state)) ''p1'' =
     Some [] \<and>
   process_needs_input (state_after empty_state (run_code start_request ''p1'' None empty_state))
     ''p1'' = Some True \<and>
   running_processes (state_after empty_state (run_code start_request ''p1'' None empty_state))
     ''p1'' = None"
  by (simp add: run_code_start_request state_after_def waiting_state_def)

subsection \<open>What a supervisor publishes\<close>

text \<open>
  The events that a run from the state \<open>s\<close> to the state \<open>s'\<close> has published, the
  completion events and the output events of the kind \<open>error\<close>.
\<close>

definition published :: "state \<Rightarrow> state \<Rightarrow> (string option \<times> event) list" where
  "published s s' = drop (length (emitted s)) (emitted s')"

definition is_complete :: "string option \<times> event \<Rightarrow> bool" where
  "is_complete x = (case snd x of code_complete p st \<Rightarrow> True | _ \<Rightarrow> False)"

definition is_error :: "string option \<times> event \<Rightarrow> bool" where
  "is_error x = (case snd x of code_output p m k \<Rightarrow> k = ''error'' | _ \<Rightarrow> False)"

text \<open>Events among which there is neither a completion event nor an error.\<close>

definition plain :: "(string option \<times> event) list \<Rightarrow> bool" where
  "plain es = (filter is_complete es = [] \<and> filter is_error es = [])"

lemma plain_Nil [simp]: "plain []"
  by (simp add: plain_def)

lemma plain_append [simp]: "plain (es @ es') = (plain es \<and> plain es')"
  by (auto simp: plain_def)

lemma plain_input_received [simp]: "plain [(room, input_received p)]"
  by (simp add: plain_def is_complete_def is_error_def)


lemma plain_stdout [simp]: "plain [(room, code_output p m ''stdout'')]"
  by (simp add: plain_def is_complete_def is_error_def)

lemma plain_stderr [simp]: "plain [(room, code_output p m ''stderr'')]"
  by (simp add: plain_def is_complete_def is_error_def)

lemma published_append: "emitted s' = emitted s @ es \<Longrightarrow> published s s' = es"
  by (simp add: published_def)

lemma filter_plain:
  "plain es \<Longrightarrow> filter is_complete (es @ es') = filter is_complete es' \<and>
     filter is_error (es @ es') = filter is_error es'"
  by (simp add: plain_def)

lemma is_complete_simps [simp]:
  "is_complete (room, code_complete p st)" "\<not> is_complete (room, code_output p m k)"
  "\<not> is_error (room, code_complete p st)" "is_error (room, code_output p m ''error'')"
  by (simp_all add: is_complete_def is_error_def)









lemma timeout_event_kinds [simp]:
  "\<not> is_complete (room, timeout_event p n)" "is_error (room, timeout_event p n)"
  by (simp_all add: timeout_event_def)












subsection \<open>Exceptions in the monitoring loop\<close>


lemma execution_error_kinds [simp]: "is_error (room, code_output p (ExecutionError x) ''error'')"
  by simp







subsection \<open>The classifier\<close>

text \<open>
  A source text cut into segments: plain text, a literal between two quotes \<open>q\<close>, a
  literal between two triple quotes, and a comment from its \<^verbatim>\<open>#\<close> on.
\<close>

datatype segment = Plain string | Quoted char string | Triple char string | Comment string

fun render :: "segment \<Rightarrow> string" where
  "render (Plain t) = t"
| "render (Quoted q b) = q # b @ [q]"
| "render (Triple q b) = [q, q, q] @ b @ [q, q, q]"
| "render (Comment t) = CHR ''#'' # t"

definition source :: "segment list \<Rightarrow> string" where
  "source segs = concat (map render segs)"

fun is_triple :: "segment \<Rightarrow> bool" where
  "is_triple (Triple q b) = True"
| "is_triple seg = False"

fun is_quoted :: "segment \<Rightarrow> bool" where
  "is_quoted (Quoted q b) = True"
| "is_quoted seg = False"

fun is_comment :: "segment \<Rightarrow> bool" where
  "is_comment (Comment t) = True"
| "is_comment seg = False"

text \<open>The segments outside the literals, and the text outside literals and comments.\<close>

definition outside_literals :: "segment list \<Rightarrow> segment list" where
  "outside_literals segs = filter (\<lambda>x. \<not> is_quoted x) (filter (\<lambda>x. \<not> is_triple x) segs)"

definition residual :: "segment list \<Rightarrow> string" where
  "residual segs = source (filter (\<lambda>x. \<not> is_comment x) (outside_literals segs))"

definition no_triple_run :: "string \<Rightarrow> bool" where
  "no_triple_run s = (find_sub [dq, dq, dq] s = None \<and> find_sub [sq, sq, sq] s = None)"

definition line_end :: "string \<Rightarrow> bool" where
  "line_end s = (case s of [] \<Rightarrow> True | c # cs \<Rightarrow> c = newline)"

text \<open>
  The segments that the three patterns recognise as what they are:
  \<^item> plain text holds no quote and no \<^verbatim>\<open>#\<close>;
  \<^item> a literal is delimited by a quote that its body does not hold, and no run of three
    equal quotes begins in it;
  \<^item> the body of a triple-quoted literal holds no run of three of its quotes and does not
    end with one;
  \<^item> a comment holds no quote, and what follows it outside the literals is the end of the
    line or of the text.
\<close>

fun simple :: "segment list \<Rightarrow> bool" where
  "simple [] = True"
| "simple (Plain t # r) = (dq \<notin> set t \<and> sq \<notin> set t \<and> CHR ''#'' \<notin> set t \<and> simple r)"
| "simple (Quoted q b # r) =
     ((q = dq \<or> q = sq) \<and> q \<notin> set b \<and>
      no_triple_run (render (Quoted q b) @ take 2 (source r)) \<and> simple r)"
| "simple (Triple q b # r) =
     ((q = dq \<or> q = sq) \<and> find_sub [q, q, q] (b @ [q, q]) = None \<and> simple r)"
| "simple (Comment t # r) =
     (dq \<notin> set t \<and> sq \<notin> set t \<and> newline \<notin> set t \<and>
      line_end (source (outside_literals r)) \<and> simple r)"

text \<open>
  A text cut into pieces, each marked as deleted or kept: a pattern deletes exactly the
  marked pieces when it matches each of them as a whole where it begins, and matches
  nowhere inside a piece that is kept.
\<close>

fun unmatched :: "(string \<Rightarrow> nat option) \<Rightarrow> string \<Rightarrow> string \<Rightarrow> bool" where
  "unmatched m [] r = True"
| "unmatched m (c # cs) r = (m (c # cs @ r) = None \<and> unmatched m cs r)"

fun pieces_ok :: "(string \<Rightarrow> nat option) \<Rightarrow> (bool \<times> string) list \<Rightarrow> bool" where
  "pieces_ok m [] = True"
| "pieces_ok m ((del, t) # r) =
     ((if del then t \<noteq> [] \<and> m (t @ concat (map snd r)) = Some (length t)
       else unmatched m t (concat (map snd r))) \<and>
      pieces_ok m r)"

definition pieces :: "(segment \<Rightarrow> bool) \<Rightarrow> segment list \<Rightarrow> (bool \<times> string) list" where
  "pieces del segs = map (\<lambda>seg. (del seg, render seg)) segs"

lemma re_sub_from_skip: "re_sub_from m (length u) (u @ r) = re_sub_from m 0 r"
  by (induction u) simp_all

lemma re_sub_from_unmatched:
  "unmatched m t r \<Longrightarrow> re_sub_from m 0 (t @ r) = t @ re_sub_from m 0 r"
  by (induction t) simp_all

lemma re_sub_from_matched:
  assumes "t \<noteq> []" and "m (t @ r) = Some (length t)"
  shows "re_sub_from m 0 (t @ r) = re_sub_from m 0 r"
proof -
  obtain c cs where t: "t = c # cs"
    using assms(1) by (cases t) auto
  have "re_sub_from m 0 (t @ r) = re_sub_from m (length cs) (cs @ r)"
    using assms(2) by (simp add: t)
  then show ?thesis
    by (simp add: re_sub_from_skip)
qed

lemma re_sub_pieces:
  "pieces_ok m ps \<Longrightarrow>
     re_sub m (concat (map snd ps)) = concat (map snd (filter (\<lambda>x. \<not> fst x) ps))"
proof (induction ps)
  case Nil
  then show ?case
    by (simp add: re_sub_def)
next
  case (Cons p ps)
  obtain del t where p: "p = (del, t)"
    by (cases p)
  have "pieces_ok m ps"
    using Cons.prems by (simp add: p)
  from Cons.IH [OF this] have ih: "re_sub_from m 0 (concat (map snd ps)) =
      concat (map snd (filter (\<lambda>x. \<not> fst x) ps))"
    by (simp only: re_sub_def)
  show ?case
  proof (cases del)
    case True
    then have a: "t \<noteq> []" and b: "m (t @ concat (map snd ps)) = Some (length t)"
      using Cons.prems by (simp_all add: p)
    from re_sub_from_matched [where m = m and t = t and r = "concat (map snd ps)", OF a b]
    show ?thesis
      using True ih by (simp add: p re_sub_def comp_def)
  next
    case False
    then have u: "unmatched m t (concat (map snd ps))"
      using Cons.prems by (simp add: p)
    from re_sub_from_unmatched [OF u] show ?thesis
      using False ih by (simp add: p re_sub_def comp_def)
  qed
qed

lemma pieces_text: "concat (map snd (pieces del segs)) = source segs"
  by (simp add: pieces_def source_def comp_def)

lemma pieces_kept:
  "concat (map snd (filter (\<lambda>x. \<not> fst x) (pieces del segs))) = source (filter (\<lambda>x. \<not> del x) segs)"
  by (induction segs) (simp_all add: pieces_def source_def)

lemma source_Cons: "source (seg # segs) = render seg @ source segs"
  by (simp add: source_def)

text \<open>Where the patterns can match.\<close>

lemma starts_with_take: "starts_with d s = (take (length d) s = d)"
  by (induction d s rule: starts_with.induct) auto

lemma find_sub_None_D:
  "find_sub d (c # cs) = None \<Longrightarrow> \<not> starts_with d (c # cs) \<and> find_sub d cs = None"
  by (simp split: if_splits)

lemma find_sub_None_drop:
  "find_sub d s = None \<Longrightarrow> i < length s \<Longrightarrow> \<not> starts_with d (drop i s)"
proof (induction s arbitrary: i)
  case Nil
  then show ?case by simp
next
  case (Cons c cs)
  from find_sub_None_D [OF Cons.prems(1)] have 1: "\<not> starts_with d (c # cs)"
    and 2: "find_sub d cs = None"
    by simp_all
  show ?case
  proof (cases i)
    case 0
    then show ?thesis
      using 1 by simp
  next
    case (Suc j)
    then show ?thesis
      using Cons.IH [OF 2, of j] Cons.prems(2) by simp
  qed
qed

lemma find_sub_closing:
  "find_sub (e @ [x]) (b @ e) = None \<Longrightarrow>
     find_sub (e @ [x]) (b @ e @ [x] @ r) = Some (length b)"
proof (induction b)
  case Nil
  have "starts_with (e @ [x]) ((e @ [x]) @ r)"
    by (simp only: starts_with_take) simp
  then show ?case
    by (cases e) simp_all
next
  case (Cons c cs)
  from find_sub_None_D [of "e @ [x]" c "cs @ e"] Cons.prems
  have 1: "\<not> starts_with (e @ [x]) (c # cs @ e)" and 2: "find_sub (e @ [x]) (cs @ e) = None"
    by simp_all
  have "take (length (e @ [x])) ((c # cs @ e) @ ([x] @ r)) = take (length (e @ [x])) (c # cs @ e)"
    by simp
  then have "\<not> starts_with (e @ [x]) ((c # cs @ e) @ ([x] @ r))"
    using 1 by (metis starts_with_take)
  then show ?case
    using Cons.IH [OF 2] by simp
qed

lemma find_sub_quote: "q \<notin> set b \<Longrightarrow> find_sub [q] b = None"
  by (induction b) auto

lemma match_delimited_closed:
  assumes "find_sub (e @ [x]) (b @ e) = None"
  shows "match_delimited (e @ [x]) ((e @ [x]) @ b @ (e @ [x]) @ r) =
           Some (length (e @ [x]) + length b + length (e @ [x]))"
proof -
  have "starts_with (e @ [x]) ((e @ [x]) @ b @ (e @ [x]) @ r)"
    by (simp only: starts_with_take) simp
  moreover have "drop (length (e @ [x])) ((e @ [x]) @ b @ (e @ [x]) @ r) = b @ e @ [x] @ r"
    by simp
  ultimately show ?thesis
    using find_sub_closing [OF assms, of r] by (simp only: match_delimited_def) simp
qed

lemma match_delimited_head:
  "d \<noteq> [] \<Longrightarrow> c \<noteq> hd d \<Longrightarrow> match_delimited d (c # cs) = None"
  by (cases d) (simp_all add: match_delimited_def)

lemma match_triple_not_quote: "c \<noteq> dq \<Longrightarrow> c \<noteq> sq \<Longrightarrow> match_triple (c # cs) = None"
  by (simp add: match_triple_def match_delimited_head)

lemma match_quoted_not_quote: "c \<noteq> dq \<Longrightarrow> c \<noteq> sq \<Longrightarrow> match_quoted (c # cs) = None"
  by (simp add: match_quoted_def match_delimited_head)

lemma match_comment_not_hash: "c \<noteq> CHR ''#'' \<Longrightarrow> match_comment (c # cs) = None"
  by (simp add: match_comment_def)

lemma unmatched_triple_no_quote:
  "dq \<notin> set t \<Longrightarrow> sq \<notin> set t \<Longrightarrow> unmatched match_triple t r"
  by (induction t) (auto simp: match_triple_not_quote)

lemma unmatched_quoted_no_quote:
  "dq \<notin> set t \<Longrightarrow> sq \<notin> set t \<Longrightarrow> unmatched match_quoted t r"
  by (induction t) (auto simp: match_quoted_not_quote)

lemma unmatched_comment_no_hash: "CHR ''#'' \<notin> set t \<Longrightarrow> unmatched match_comment t r"
  by (induction t) (auto simp: match_comment_not_hash)

lemma dq_sq [simp]: "dq \<noteq> sq" "sq \<noteq> dq" "dq \<noteq> CHR ''#''" "sq \<noteq> CHR ''#''"
  by (simp_all add: dq_def sq_def)

lemma match_triple_closed:
  assumes "q = dq \<or> q = sq" and "find_sub [q, q, q] (b @ [q, q]) = None"
  shows "match_triple ([q, q, q] @ b @ [q, q, q] @ r) = Some (length ([q, q, q] @ b @ [q, q, q]))"
proof -
  have m: "match_delimited [q, q, q] ([q, q, q] @ b @ [q, q, q] @ r) =
      Some (length ([q, q, q] @ b @ [q, q, q]))"
    using match_delimited_closed [of "[q, q]" q b r] assms(2) by simp
  show ?thesis
  proof (cases "q = dq")
    case True
    then show ?thesis
      using m by (simp add: match_triple_def)
  next
    case False
    then have "q = sq"
      using assms(1) by simp
    moreover have "match_delimited [dq, dq, dq] ([sq, sq, sq] @ b @ [sq, sq, sq] @ r) = None"
      by (simp add: match_delimited_head)
    ultimately show ?thesis
      using m by (simp add: match_triple_def)
  qed
qed

lemma match_quoted_closed:
  assumes "q = dq \<or> q = sq" and "q \<notin> set b"
  shows "match_quoted ((q # b @ [q]) @ r) = Some (length (q # b @ [q]))"
proof -
  have m: "match_delimited [q] ([q] @ b @ [q] @ r) = Some (length (q # b @ [q]))"
    using match_delimited_closed [of "[]" q b r] find_sub_quote [OF assms(2)] by simp
  show ?thesis
  proof (cases "q = dq")
    case True
    then show ?thesis
      using m by (simp add: match_quoted_def)
  next
    case False
    then have "q = sq"
      using assms(1) by simp
    moreover have "match_delimited [dq] ([sq] @ b @ [sq] @ r) = None"
      by (simp add: match_delimited_head)
    ultimately show ?thesis
      using m by (simp add: match_quoted_def)
  qed
qed

lemma takeWhile_line:
  "newline \<notin> set t \<Longrightarrow> line_end r \<Longrightarrow> takeWhile (\<lambda>x. x \<noteq> newline) (t @ r) = t"
  by (induction t) (auto simp: line_end_def split: list.splits)

lemma match_comment_line:
  assumes "newline \<notin> set t" and "line_end r"
  shows "match_comment ((CHR ''#'' # t) @ r) = Some (length (CHR ''#'' # t))"
  using takeWhile_line [OF assms] by (simp add: match_comment_def)

text \<open>No match of the triple-quote pattern begins where no run of three quotes begins.\<close>

lemma match_triple_starts:
  "match_triple s \<noteq> None \<Longrightarrow> starts_with [dq, dq, dq] s \<or> starts_with [sq, sq, sq] s"
  by (auto simp: match_triple_def match_delimited_def split: option.splits if_splits)

lemma unmatched_drop:
  "(\<And>i. i < length t \<Longrightarrow> m (drop i t @ r) = None) \<Longrightarrow> unmatched m t r"
proof (induction t)
  case Nil
  then show ?case by simp
next
  case (Cons c cs)
  have "m ((c # cs) @ r) = None"
    using Cons.prems [of 0] by simp
  moreover have "unmatched m cs r"
  proof (rule Cons.IH)
    fix i
    assume "i < length cs"
    then show "m (drop i cs @ r) = None"
      using Cons.prems [of "Suc i"] by simp
  qed
  ultimately show ?case
    by simp
qed

lemma unmatched_triple_no_run:
  assumes "no_triple_run (t @ take 2 r)"
  shows "unmatched match_triple t r"
proof -
  have "\<And>i. i < length t \<Longrightarrow> match_triple (drop i t @ r) = None"
  proof (rule ccontr)
    fix i
    assume i: "i < length t" and "match_triple (drop i t @ r) \<noteq> None"
    from match_triple_starts [OF this(2)] obtain d where
      d: "d = [dq, dq, dq] \<or> d = [sq, sq, sq]" and s: "starts_with d (drop i t @ r)"
      by blast
    have l: "length d = 3"
      using d by auto
    obtain c cs where c: "drop i t = c # cs"
      using i by (cases "drop i t") simp_all
    have "take 2 (cs @ r) = take 2 (cs @ take 2 r)"
      by (simp add: min_def)
    then have "take 3 (drop i t @ r) = take 3 (drop i t @ take 2 r)"
      by (simp add: c)
    then have "starts_with d (drop i t @ take 2 r)"
      using s l by (simp add: starts_with_take)
    then have "starts_with d (drop i (t @ take 2 r))"
      using i by simp
    moreover have "find_sub d (t @ take 2 r) = None"
      using assms d by (auto simp: no_triple_run_def)
    ultimately show False
      using find_sub_None_drop [of d "t @ take 2 r" i] i by simp
  qed
  then show ?thesis
    by (rule unmatched_drop)
qed

text \<open>Each of the three patterns deletes the segments it is meant for, and nothing else.\<close>

lemma triple_pieces: "simple segs \<Longrightarrow> pieces_ok match_triple (pieces is_triple segs)"
proof (induction segs)
  case Nil
  then show ?case
    by (simp add: pieces_def)
next
  case (Cons seg r)
  have r: "concat (map snd (map (\<lambda>seg. (is_triple seg, render seg)) r)) = source r"
    using pieces_text [of is_triple r] by (simp add: pieces_def)
  have "simple r"
    using Cons.prems by (cases seg) simp_all
  from Cons.IH [OF this]
  have ih: "pieces_ok match_triple (map (\<lambda>seg. (is_triple seg, render seg)) r)"
    by (simp add: pieces_def)
  show ?case
  proof (cases seg)
    case (Plain t)
    then show ?thesis
      using Cons.prems ih r by (simp add: pieces_def unmatched_triple_no_quote)
  next
    case (Quoted q b)
    then have "no_triple_run ((q # b @ [q]) @ take 2 (source r))"
      using Cons.prems by simp
    from unmatched_triple_no_run [OF this] show ?thesis
      using Quoted ih r by (simp add: pieces_def)
  next
    case (Triple q b)
    then have "q = dq \<or> q = sq" and "find_sub [q, q, q] (b @ [q, q]) = None"
      using Cons.prems by simp_all
    from match_triple_closed [OF this, of "source r"] show ?thesis
      using Triple ih r by (simp add: pieces_def)
  next
    case (Comment t)
    then have "dq \<notin> set (CHR ''#'' # t)" and "sq \<notin> set (CHR ''#'' # t)"
      using Cons.prems by simp_all
    from unmatched_triple_no_quote [OF this] show ?thesis
      using Comment ih r by (simp add: pieces_def)
  qed
qed

lemma quoted_pieces:
  "simple segs \<Longrightarrow> pieces_ok match_quoted (pieces is_quoted (filter (\<lambda>x. \<not> is_triple x) segs))"
proof (induction segs)
  case Nil
  then show ?case
    by (simp add: pieces_def)
next
  case (Cons seg r)
  define r' where "r' = filter (\<lambda>x. \<not> is_triple x) r"
  have r: "concat (map snd (map (\<lambda>seg. (is_quoted seg, render seg)) r')) = source r'"
    using pieces_text [of is_quoted r'] by (simp add: pieces_def)
  have "simple r"
    using Cons.prems by (cases seg) simp_all
  from Cons.IH [OF this]
  have ih: "pieces_ok match_quoted (map (\<lambda>seg. (is_quoted seg, render seg)) r')"
    by (simp add: pieces_def r'_def)
  show ?case
  proof (cases seg)
    case (Plain t)
    then show ?thesis
      using Cons.prems ih r by (simp add: pieces_def unmatched_quoted_no_quote r'_def [symmetric])
  next
    case (Quoted q b)
    then have "q = dq \<or> q = sq" and "q \<notin> set b"
      using Cons.prems by simp_all
    from match_quoted_closed [OF this, of "source r'"] show ?thesis
      using Quoted ih r by (simp add: pieces_def r'_def [symmetric])
  next
    case (Triple q b)
    then show ?thesis
      using ih by (simp add: pieces_def r'_def [symmetric])
  next
    case (Comment t)
    then have "dq \<notin> set (CHR ''#'' # t)" and "sq \<notin> set (CHR ''#'' # t)"
      using Cons.prems by simp_all
    from unmatched_quoted_no_quote [OF this] show ?thesis
      using Comment ih r by (simp add: pieces_def r'_def [symmetric])
  qed
qed

lemma comment_pieces:
  "simple segs \<Longrightarrow> pieces_ok match_comment (pieces is_comment (outside_literals segs))"
proof (induction segs)
  case Nil
  then show ?case
    by (simp add: pieces_def outside_literals_def)
next
  case (Cons seg r)
  define r' where "r' = outside_literals r"
  have r: "concat (map snd (map (\<lambda>seg. (is_comment seg, render seg)) r')) = source r'"
    using pieces_text [of is_comment r'] by (simp add: pieces_def)
  have "simple r"
    using Cons.prems by (cases seg) simp_all
  from Cons.IH [OF this]
  have ih: "pieces_ok match_comment (map (\<lambda>seg. (is_comment seg, render seg)) r')"
    by (simp add: pieces_def r'_def)
  show ?case
  proof (cases seg)
    case (Plain t)
    then have "outside_literals (seg # r) = Plain t # r'"
      by (simp add: outside_literals_def r'_def)
    then show ?thesis
      using Plain Cons.prems ih r by (simp add: pieces_def unmatched_comment_no_hash)
  next
    case (Quoted q b)
    then have "outside_literals (seg # r) = r'"
      by (simp add: outside_literals_def r'_def)
    then show ?thesis
      using ih by (simp add: pieces_def)
  next
    case (Triple q b)
    then have "outside_literals (seg # r) = r'"
      by (simp add: outside_literals_def r'_def)
    then show ?thesis
      using ih by (simp add: pieces_def)
  next
    case (Comment t)
    then have o: "outside_literals (seg # r) = Comment t # r'"
      by (simp add: outside_literals_def r'_def)
    have "newline \<notin> set t" and "line_end (source r')"
      using Comment Cons.prems by (simp_all add: r'_def)
    from match_comment_line [OF this] show ?thesis
      using o ih r by (simp add: pieces_def)
  qed
qed

lemma strip_simple:
  assumes "simple segs"
  shows "strip_strings_and_comments (source segs) = residual segs"
proof -
  have 1: "re_sub match_triple (source segs) = source (filter (\<lambda>x. \<not> is_triple x) segs)"
    using re_sub_pieces [OF triple_pieces [OF assms]]
    by (simp only: pieces_text pieces_kept)
  have 2: "re_sub match_quoted (source (filter (\<lambda>x. \<not> is_triple x) segs)) =
      source (outside_literals segs)"
    using re_sub_pieces [OF quoted_pieces [OF assms]]
    by (simp only: pieces_text pieces_kept outside_literals_def)
  have 3: "re_sub match_comment (source (outside_literals segs)) = residual segs"
    using re_sub_pieces [OF comment_pieces [OF assms]]
    by (simp only: pieces_text pieces_kept residual_def)
  show ?thesis
    by (simp only: strip_strings_and_comments_def 1 2 3)
qed

text \<open>\<open>find_sub\<close> finds a text exactly when it occurs.\<close>

lemma find_sub_occurs:
  "(find_sub d s \<noteq> None) = (\<exists>pre post. s = pre @ d @ post)"
proof
  show "find_sub d s \<noteq> None \<Longrightarrow> \<exists>pre post. s = pre @ d @ post"
  proof (induction s)
    case Nil
    then show ?case
      by (simp split: if_splits)
  next
    case (Cons c cs)
    show ?case
    proof (cases "starts_with d (c # cs)")
      case True
      then have "c # cs = [] @ d @ drop (length d) (c # cs)"
        by (simp only: starts_with_take) (metis append_Nil append_take_drop_id)
      then show ?thesis
        by blast
    next
      case False
      then have "find_sub d cs \<noteq> None"
        using Cons.prems by simp
      from Cons.IH [OF this] obtain pre post where "cs = pre @ d @ post"
        by blast
      then have "c # cs = (c # pre) @ d @ post"
        by simp
      then show ?thesis
        by blast
    qed
  qed
next
  assume "\<exists>pre post. s = pre @ d @ post"
  then obtain pre post where s: "s = pre @ d @ post"
    by blast
  have "find_sub d (pre @ d @ post) \<noteq> None"
  proof (induction pre)
    case Nil
    have "starts_with d (d @ post)"
      by (simp add: starts_with_take)
    then show ?case
      by (cases "d @ post") (simp_all split: if_splits)
  next
    case (Cons c pre)
    then show ?case
      by simp
  qed
  then show "find_sub d s \<noteq> None"
    by (simp add: s)
qed

text \<open>Two programs in segments, and a comment that holds an apostrophe.\<close>

definition quoting_program :: "segment list" where
  "quoting_program =
     [Plain ''print('', Quoted dq ''input()'', Plain ('')'' @ [newline]),
      Comment '' sys.stdin is not read'', Plain (newline # ''x = 1'')]"

definition asking_program :: "segment list" where
  "asking_program =
     [Triple dq ''Asks for a name.'', Plain (newline # ''name = input(''), Quoted sq ''Name? '',
      Plain '')'']"

definition apostrophe_program :: "segment list" where
  "apostrophe_program =
     [Comment ('' it'' @ [sq] @ ''s a comment''), Plain (newline # ''name = input(''),
      Quoted sq ''Name? '', Plain '')'']"

text \<open>
  C5, as the code has it. The classifier of \<^verbatim>\<open>app.py\<close> deletes what its three patterns
  match, one pattern after the other, and tests what is left. For a source made of
  segments that the patterns recognise as what they are (see \<open>simple\<close>), what is left is
  the text outside the literals and the comments: the classifier returns what the test
  finds there, and so it returns false when the construct occurs inside literals and
  comments only. The classifier of \<^verbatim>\<open>aappp.py\<close> deletes nothing: it returns true exactly
  when the text \<^verbatim>\<open>input(\<close> occurs in the source.
\<close>

theorem classifier_tests_residual:
  "(simple segs \<longrightarrow>
      strip_strings_and_comments (source segs) = residual segs \<and>
      code_needs_input (source segs) =
        (re_search_b match_input False (residual segs) \<or>
         re_search_b match_sys_stdin False (residual segs)) \<and>
      (\<not> re_search_b match_input False (residual segs) \<and>
       \<not> re_search_b match_sys_stdin False (residual segs) \<longrightarrow>
         \<not> code_needs_input (source segs))) \<and>
   code_needs_input_aappp src = (\<exists>pre post. src = pre @ ''input('' @ post)"
proof (intro conjI impI)
  assume s: "simple segs"
  show 1: "strip_strings_and_comments (source segs) = residual segs"
    using s by (rule strip_simple)
  show 2: "code_needs_input (source segs) =
      (re_search_b match_input False (residual segs) \<or>
       re_search_b match_sys_stdin False (residual segs))"
    by (simp add: code_needs_input_def Let_def 1)
  assume "\<not> re_search_b match_input False (residual segs) \<and>
       \<not> re_search_b match_sys_stdin False (residual segs)"
  then show "\<not> code_needs_input (source segs)"
    using 2 by simp
next
  show "code_needs_input_aappp src = (\<exists>pre post. src = pre @ ''input('' @ post)"
    unfolding code_needs_input_aappp_def by (rule find_sub_occurs)
qed

lemma quoting_program_residual:
  "residual quoting_program = ''print()'' @ [newline, newline] @ ''x = 1''"
  by (simp add: residual_def outside_literals_def source_def quoting_program_def)

lemma quoting_program_silent:
  "\<not> re_search_b match_input False (residual quoting_program) \<and>
   \<not> re_search_b match_sys_stdin False (residual quoting_program)"
  by (simp add: quoting_program_residual match_input_def match_sys_stdin_def is_word_def
      is_space_def newline_def)

theorem classifier_tests_residual_witness:
  "simple quoting_program \<and>
   source quoting_program =
     ''print('' @ [dq] @ ''input()'' @ [dq] @ '')'' @ [newline] @
     ''# sys.stdin is not read'' @ [newline] @ ''x = 1'' \<and>
   residual quoting_program = ''print()'' @ [newline, newline] @ ''x = 1'' \<and>
   \<not> code_needs_input (source quoting_program) \<and>
   simple asking_program \<and>
   residual asking_program = newline # ''name = input()'' \<and>
   code_needs_input (source asking_program)"
proof -
  have 1: "simple quoting_program"
    by (simp add: quoting_program_def no_triple_run_def line_end_def source_def
        outside_literals_def dq_def sq_def newline_def)
  have 2: "source quoting_program =
     ''print('' @ [dq] @ ''input()'' @ [dq] @ '')'' @ [newline] @
     ''# sys.stdin is not read'' @ [newline] @ ''x = 1''"
    by (simp add: source_def quoting_program_def)
  have 3: "simple asking_program"
    by (simp add: asking_program_def no_triple_run_def line_end_def source_def
        outside_literals_def dq_def sq_def newline_def)
  have 4: "residual asking_program = newline # ''name = input()''"
    by (simp add: residual_def outside_literals_def source_def asking_program_def)
  have 5: "re_search_b match_input False (residual asking_program)"
    by (simp add: 4 match_input_def is_word_def is_space_def newline_def)
  have 6: "\<not> code_needs_input (source quoting_program)"
    using classifier_tests_residual [where segs = quoting_program] 1 quoting_program_silent
    by blast
  have 7: "code_needs_input (source asking_program)"
    using classifier_tests_residual [where segs = asking_program] 3 5
    by blast
  show ?thesis
    by (intro conjI 1 2 quoting_program_residual 6 3 4 7)
qed

text \<open>
  The claim C5 as stated fails. In \<^verbatim>\<open>aappp.py\<close> nothing is removed: a program whose only
  \<^verbatim>\<open>input(\<close> stands inside a string literal is classified as reading input. In \<^verbatim>\<open>app.py\<close>
  the quoted literals are removed before the comments, so that an apostrophe in a comment
  opens a literal: in \<open>apostrophe_program\<close> the text from the apostrophe of the comment to
  the quote after \<^verbatim>\<open>input(\<close> is removed, and the call outside the literals and comments is
  not seen.
\<close>

theorem classifier_tests_residual_counterexample:
  "\<not> re_search_b match_input False (residual quoting_program) \<and>
   \<not> re_search_b match_sys_stdin False (residual quoting_program) \<and>
   code_needs_input_aappp (source quoting_program) \<and>
   source apostrophe_program =
     ''# it'' @ [sq] @ ''s a comment'' @ [newline] @ ''name = input('' @ [sq] @ ''Name? '' @ [sq] @
     '')'' \<and>
   residual apostrophe_program = newline # ''name = input()'' \<and>
   re_search_b match_input False (residual apostrophe_program) \<and>
   strip_strings_and_comments (source apostrophe_program) = [] \<and>
   \<not> code_needs_input (source apostrophe_program)"
proof -
  have 1: "code_needs_input_aappp (source quoting_program)"
    by (simp add: code_needs_input_aappp_def source_def quoting_program_def dq_def newline_def)
  have 2: "source apostrophe_program =
     ''# it'' @ [sq] @ ''s a comment'' @ [newline] @ ''name = input('' @ [sq] @ ''Name? '' @ [sq] @
     '')''"
    by (simp add: source_def apostrophe_program_def)
  have 3: "residual apostrophe_program = newline # ''name = input()''"
    by (simp add: residual_def outside_literals_def source_def apostrophe_program_def)
  have 4: "re_search_b match_input False (residual apostrophe_program)"
    by (simp add: 3 match_input_def is_word_def is_space_def newline_def)
  have 5: "strip_strings_and_comments (source apostrophe_program) = []"
    by (simp add: source_def apostrophe_program_def strip_strings_and_comments_def re_sub_def
        match_triple_def match_quoted_def match_comment_def match_delimited_def dq_def sq_def
        newline_def)
  have 6: "\<not> code_needs_input (source apostrophe_program)"
    by (simp add: code_needs_input_def 5)
  show ?thesis
    using quoting_program_silent by (intro conjI 1 2 3 4 5 6) simp_all
qed

end
